theory Spec2Isabelle
  imports Main "HOL-Library.Word"
begin

section \<open>The relay server of src/server.c\<close>

text \<open>
  A shallow embedding of the per-connection relay of \<^verbatim>\<open>src/server.c\<close>: the two
  endpoint structs, the heap they live in, the four I/O callbacks, the connect timer and
  the tear-down functions. Pointers are addresses into two stores (one per struct type);
  \<^verbatim>\<open>NULL\<close> is \<open>None\<close>; \<^verbatim>\<open>free\<close> removes the address from its store, and reading
  through a pointer whose address is not in the store is the error \<open>Fault\<close>.
  What the kernel and the C library answer (\<^verbatim>\<open>recv\<close>, \<^verbatim>\<open>send\<close>, \<^verbatim>\<open>getpeername\<close>,
  \<^verbatim>\<open>getaddrinfo\<close>, \<^verbatim>\<open>socket\<close>, \<^verbatim>\<open>accept\<close>, \<^verbatim>\<open>malloc\<close>) is an input of each
  callback, the record \<open>env\<close>; what the program asks of them is appended to a trace.
\<close>

subsection \<open>Bytes, buffers and text\<close>

type_synonym byte = "8 word"
type_synonym addr = nat

text \<open>
  Modelled from the spec: \<^verbatim>\<open>BUF_SIZE\<close> is a macro of \<^verbatim>\<open>server.h\<close>, which is not
  among the sources; the spec gives it as the fixed per-direction buffer capacity,
  4096 bytes.
\<close>

definition BUF_SIZE :: nat where
  "BUF_SIZE = 4096"

datatype errno = EAGAIN | EWOULDBLOCK | ECONNRESET | EPIPE | ETIMEDOUT

definition would_block :: "errno \<Rightarrow> bool" where
  "would_block e = (e = EAGAIN \<or> e = EWOULDBLOCK)"

text \<open>
  \<^verbatim>\<open>recv(fd, buf, BUF_SIZE, 0)\<close> returning \<open>r > 0\<close> overwrites the first \<open>r\<close> bytes of
  the buffer and leaves the rest as it was.
\<close>

definition recv_into :: "byte list \<Rightarrow> byte list \<Rightarrow> byte list" where
  "recv_into buf data = data @ drop (length data) buf"

text \<open>
  \<^verbatim>\<open>decrypt_ctx(buf, r, ctx)\<close> and \<^verbatim>\<open>encrypt_ctx(buf, r, ctx)\<close> live in the cipher
  module, which is not among the sources. They transform the first \<open>r\<close> bytes of the
  buffer in place; the transformation itself (with the current cipher context) is the
  parameter \<open>f\<close>.
\<close>

definition crypt_in_place :: "(byte list \<Rightarrow> byte list) \<Rightarrow> byte list \<Rightarrow> nat \<Rightarrow> byte list" where
  "crypt_in_place f buf r =
     (let out = take r (f (take r buf)) in out @ drop (length out) buf)"

definition decrypt_ctx :: "(byte list \<Rightarrow> byte list) \<Rightarrow> byte list \<Rightarrow> nat \<Rightarrow> byte list" where
  "decrypt_ctx = crypt_in_place"

definition encrypt_ctx :: "(byte list \<Rightarrow> byte list) \<Rightarrow> byte list \<Rightarrow> nat \<Rightarrow> byte list" where
  "encrypt_ctx = crypt_in_place"

text \<open>
  The carry-over loop, the same at its four sites:
  \<^verbatim>\<open>while (pt + s < et) { *pt = *(pt + s); pt++; }\<close>
  with \<open>pt\<close> and \<open>et\<close> as offsets from the start of the buffer.
\<close>

function move_loop :: "byte list \<Rightarrow> nat \<Rightarrow> nat \<Rightarrow> nat \<Rightarrow> byte list" where
  "move_loop buf pt s et =
     (if pt + s < et then move_loop (buf[pt := buf ! (pt + s)]) (pt + 1) s et else buf)"
  by pat_completeness auto
termination
  by (relation "measure (\<lambda>(buf, pt, s, et). et - (pt + s))") auto

declare move_loop.simps [simp del]

text \<open>\<^verbatim>\<open>memcpy(dst, src, n)\<close> on the start of \<open>dst\<close>.\<close>

definition memcpy :: "byte list \<Rightarrow> byte list \<Rightarrow> nat \<Rightarrow> byte list" where
  "memcpy dst src n = take n src @ drop n dst"

text \<open>Decimal text of a number, as \<^verbatim>\<open>sprintf("%d", p)\<close> prints a non-negative one.\<close>

definition digit :: "nat \<Rightarrow> char" where
  "digit n = ''0123456789'' ! n"

function decimal :: "nat \<Rightarrow> string" where
  "decimal n = (if n < 10 then [digit n] else decimal (n div 10) @ [digit (n mod 10)])"
  by pat_completeness auto
termination
  by (relation "measure id") auto

declare decimal.simps [simp del]

text \<open>
  \<^verbatim>\<open>inet_ntoa\<close> of the C library: the four bytes of an address in network order, as
  dotted decimal.
\<close>

fun inet_ntoa :: "byte list \<Rightarrow> string" where
  "inet_ntoa [a, b, c, d] =
     decimal (unat a) @ ''.'' @ decimal (unat b) @ ''.'' @ decimal (unat c) @ ''.'' @ decimal (unat d)"
| "inet_ntoa _ = []"

text \<open>
  The host name is copied into a zeroed array of 256 chars and used as a C string: it
  ends before the first NUL byte.
\<close>

definition c_string :: "byte list \<Rightarrow> string" where
  "c_string bs = map (\<lambda>b. char_of (unat b)) (takeWhile (\<lambda>b. b \<noteq> 0) bs)"

subsection \<open>The two endpoints and the heap\<close>

text \<open>
  \<^verbatim>\<open>struct server\<close> and \<^verbatim>\<open>struct remote\<close> are declared in \<^verbatim>\<open>server.h\<close>; their
  fields are taken from their uses in \<^verbatim>\<open>server.c\<close>. The \<^verbatim>\<open>recv_ctx\<close> and
  \<^verbatim>\<open>send_ctx\<close> blocks are allocated and freed with their endpoint, so their contents
  are fields of the endpoint: whether each \<^verbatim>\<open>ev_io\<close> watcher is started, whether the
  connect timer runs, and the \<^verbatim>\<open>connected\<close> flag of the remote's \<^verbatim>\<open>send_ctx\<close>.
  The cipher contexts are opaque to this file.
\<close>

record server =
  server_fd :: int
  server_buf :: "byte list"
  stage :: int
  server_buf_len :: int
  server_recv_io :: bool
  server_send_io :: bool
  server_remote :: "addr option"
  timeout :: int

record remote =
  remote_fd :: int
  remote_buf :: "byte list"
  remote_buf_len :: int
  remote_recv_io :: bool
  remote_send_io :: bool
  watcher :: bool
  connected :: bool
  remote_server :: "addr option"

datatype syscall =
    Close int
  | Send int "byte list"
  | Getaddrinfo string string
  | Connect int

record state =
  servers :: "addr \<rightharpoonup> server"
  remotes :: "addr \<rightharpoonup> remote"
  remote_conn :: int
  server_conn :: int
  trace :: "syscall list"

text \<open>
  How a callback can end the process: \<open>Fault\<close> is a read or write through NULL or
  through a pointer to a freed endpoint; \<open>FATAL\<close> is the macro of \<^verbatim>\<open>utils.h\<close> that
  logs its message and exits.
\<close>

datatype error = Fault | FATAL string

text \<open>
  What the outside answers during one callback: \<^verbatim>\<open>recv\<close> fails with an errno (it
  returned -1) or delivers bytes (none at end of file), of which the first
  \<^verbatim>\<open>BUF_SIZE\<close> are taken; \<^verbatim>\<open>send\<close> fails with an errno or accepts a number of bytes;
  \<^verbatim>\<open>malloc\<close> returns an address and the block's old contents; the cipher is the
  transformation that \<^verbatim>\<open>decrypt_ctx\<close> or \<^verbatim>\<open>encrypt_ctx\<close> applies with the context as
  it is at this call.
\<close>

record env =
  recv_ret :: "errno + byte list"
  send_ret :: "errno + nat"
  getpeername_ret :: int
  getaddrinfo_ret :: int
  socket_ret :: int
  accept_ret :: int
  malloc_ret :: addr
  malloc_buf :: "byte list"
  decrypt :: "byte list \<Rightarrow> byte list"
  encrypt :: "byte list \<Rightarrow> byte list"
  listener_timeout :: int

subsection \<open>Statements\<close>

fun run :: "(state \<Rightarrow> error + state) list \<Rightarrow> state \<Rightarrow> error + state" where
  "run [] st = Inr st"
| "run (c # cs) st = (case c st of Inl e \<Rightarrow> Inl e | Inr st' \<Rightarrow> run cs st')"

definition with_server :: "addr \<Rightarrow> (server \<Rightarrow> server) \<Rightarrow> state \<Rightarrow> error + state" where
  "with_server a f st =
     (case servers st a of
        None \<Rightarrow> Inl Fault
      | Some s \<Rightarrow> Inr (st\<lparr>servers := (servers st)(a \<mapsto> f s)\<rparr>))"

definition with_remote :: "addr \<Rightarrow> (remote \<Rightarrow> remote) \<Rightarrow> state \<Rightarrow> error + state" where
  "with_remote b f st =
     (case remotes st b of
        None \<Rightarrow> Inl Fault
      | Some r \<Rightarrow> Inr (st\<lparr>remotes := (remotes st)(b \<mapsto> f r)\<rparr>))"

definition sys :: "syscall \<Rightarrow> state \<Rightarrow> error + state" where
  "sys c st = Inr (st\<lparr>trace := trace st @ [c]\<rparr>)"

datatype ev_watcher =
    Server_recv addr
  | Server_send addr
  | Remote_recv addr
  | Remote_send addr
  | Remote_timer addr

fun ev_set :: "ev_watcher \<Rightarrow> bool \<Rightarrow> state \<Rightarrow> error + state" where
  "ev_set (Server_recv a) v = with_server a (\<lambda>s. s\<lparr>server_recv_io := v\<rparr>)"
| "ev_set (Server_send a) v = with_server a (\<lambda>s. s\<lparr>server_send_io := v\<rparr>)"
| "ev_set (Remote_recv b) v = with_remote b (\<lambda>r. r\<lparr>remote_recv_io := v\<rparr>)"
| "ev_set (Remote_send b) v = with_remote b (\<lambda>r. r\<lparr>remote_send_io := v\<rparr>)"
| "ev_set (Remote_timer b) v = with_remote b (\<lambda>r. r\<lparr>watcher := v\<rparr>)"

definition ev_io_start :: "ev_watcher \<Rightarrow> state \<Rightarrow> error + state" where
  "ev_io_start w = ev_set w True"

definition ev_io_stop :: "ev_watcher \<Rightarrow> state \<Rightarrow> error + state" where
  "ev_io_stop w = ev_set w False"

definition ev_timer_start :: "ev_watcher \<Rightarrow> state \<Rightarrow> error + state" where
  "ev_timer_start w = ev_set w True"

definition ev_timer_stop :: "ev_watcher \<Rightarrow> state \<Rightarrow> error + state" where
  "ev_timer_stop w = ev_set w False"

subsection \<open>Allocation and tear-down\<close>

text \<open>
  \<^verbatim>\<open>malloc\<close> does not initialise the block: the buffer of a new endpoint holds
  whatever bytes the allocator hands out, \<open>malloc_buf env\<close> (cut or zero-filled to
  \<^verbatim>\<open>BUF_SIZE\<close> bytes).
\<close>

definition malloc_bytes :: "env \<Rightarrow> byte list" where
  "malloc_bytes env =
     take BUF_SIZE (malloc_buf env) @ replicate (BUF_SIZE - length (malloc_buf env)) 0"

text \<open>
  \<^verbatim>\<open>ev_timer_init\<close> records the timeout; time is not part of the model: a started
  timer may fire at any turn of the loop.
\<close>

definition new_remote :: "env \<Rightarrow> int \<Rightarrow> int \<Rightarrow> state \<Rightarrow> addr \<times> state" where
  "new_remote env fd tmo st =
     (let b = malloc_ret env;
          r = \<lparr>remote_fd = fd,
               remote_buf = malloc_bytes env,
               remote_buf_len = 0,
               remote_recv_io = False,
               remote_send_io = False,
               watcher = False,
               connected = False,
               remote_server = None\<rparr>
      in (b, st\<lparr>remote_conn := remote_conn st + 1, remotes := (remotes st)(b \<mapsto> r)\<rparr>))"

definition free_remote :: "addr option \<Rightarrow> state \<Rightarrow> error + state" where
  "free_remote remote st0 =
     (let st = st0\<lparr>remote_conn := remote_conn st0 - 1\<rparr> in
      case remote of
        None \<Rightarrow> Inr st
      | Some b \<Rightarrow>
          (case remotes st b of
             None \<Rightarrow> Inl Fault
           | Some r \<Rightarrow>
               run [(case remote_server r of
                       None \<Rightarrow> Inr
                     | Some a \<Rightarrow> with_server a (\<lambda>s. s\<lparr>server_remote := None\<rparr>)),
                    (\<lambda>st. Inr (st\<lparr>remotes := (remotes st)(b := None)\<rparr>))] st))"

definition close_and_free_remote :: "addr option \<Rightarrow> state \<Rightarrow> error + state" where
  "close_and_free_remote remote st =
     (case remote of
        None \<Rightarrow> Inr st
      | Some b \<Rightarrow>
          (case remotes st b of
             None \<Rightarrow> Inl Fault
           | Some r \<Rightarrow>
               run [ev_timer_stop (Remote_timer b),
                    ev_io_stop (Remote_send b),
                    ev_io_stop (Remote_recv b),
                    sys (Close (remote_fd r)),
                    free_remote (Some b)] st))"

text \<open>
  \<^verbatim>\<open>new_server\<close> does not set \<^verbatim>\<open>timeout\<close> (\<^verbatim>\<open>accept_cb\<close> does, right after);
  the field holds 0 until then. The cipher contexts it allocates are not modelled.
\<close>

definition new_server :: "env \<Rightarrow> int \<Rightarrow> state \<Rightarrow> addr \<times> state" where
  "new_server env fd st =
     (let a = malloc_ret env;
          s = \<lparr>server_fd = fd,
               server_buf = malloc_bytes env,
               stage = 0,
               server_buf_len = 0,
               server_recv_io = False,
               server_send_io = False,
               server_remote = None,
               timeout = 0\<rparr>
      in (a, st\<lparr>server_conn := server_conn st + 1, servers := (servers st)(a \<mapsto> s)\<rparr>))"

definition free_server :: "addr option \<Rightarrow> state \<Rightarrow> error + state" where
  "free_server server st0 =
     (let st = st0\<lparr>server_conn := server_conn st0 - 1\<rparr> in
      case server of
        None \<Rightarrow> Inr st
      | Some a \<Rightarrow>
          (case servers st a of
             None \<Rightarrow> Inl Fault
           | Some s \<Rightarrow>
               run [(case server_remote s of
                       None \<Rightarrow> Inr
                     | Some b \<Rightarrow> with_remote b (\<lambda>r. r\<lparr>remote_server := None\<rparr>)),
                    (\<lambda>st. Inr (st\<lparr>servers := (servers st)(a := None)\<rparr>))] st))"

definition close_and_free_server :: "addr option \<Rightarrow> state \<Rightarrow> error + state" where
  "close_and_free_server server st =
     (case server of
        None \<Rightarrow> Inr st
      | Some a \<Rightarrow>
          (case servers st a of
             None \<Rightarrow> Inl Fault
           | Some s \<Rightarrow>
               run [ev_io_stop (Server_send a),
                    ev_io_stop (Server_recv a),
                    sys (Close (server_fd s)),
                    free_server (Some a)] st))"

definition connect_to_remote :: "env \<Rightarrow> string \<Rightarrow> string \<Rightarrow> int \<Rightarrow> state \<Rightarrow> addr option \<times> state" where
  "connect_to_remote env remote_host remote_port tmo st0 =
     (let st = st0\<lparr>trace := trace st0 @ [Getaddrinfo remote_host remote_port]\<rparr> in
      if getaddrinfo_ret env \<noteq> 0 then (None, st)
      else
        let sockfd = socket_ret env in
        if sockfd < 0 then (None, st\<lparr>trace := trace st @ [Close sockfd]\<rparr>)
        else
          let (b, st1) = new_remote env sockfd tmo st
          in (Some b, st1\<lparr>trace := trace st1 @ [Connect sockfd]\<rparr>))"

subsection \<open>The client socket is readable: \<^verbatim>\<open>server_recv_cb\<close>\<close>

text \<open>
  The header of the first read (the block after the protocol comment): the address type,
  the host as text, the port as text, and the offset of the first byte after the header.
  \<open>None\<close> is the branch \<^verbatim>\<open>unsupported addrtype\<close>.
\<close>

definition parse_header :: "byte list \<Rightarrow> (string \<times> string \<times> nat) option" where
  "parse_header buf =
     (let atyp = buf ! 0 in
      case (if atyp = 1 then Some (inet_ntoa (take 4 (drop 1 buf)), 5)
            else if atyp = 3 then
              (let name_len = unat (buf ! 1)
               in Some (c_string (take name_len (drop 2 buf)), name_len + 2))
            else None) of
        None \<Rightarrow> None
      | Some (host, offset) \<Rightarrow>
          (let p = push_bit 8 (unat (buf ! offset)) + unat (buf ! (offset + 1))
           in Some (host, decimal p, offset + 2)))"

text \<open>Stage 0, after a read of \<open>r > 0\<close> bytes has been decrypted into \<^verbatim>\<open>server->buf\<close>.\<close>

definition server_recv_header :: "env \<Rightarrow> addr \<Rightarrow> nat \<Rightarrow> state \<Rightarrow> error + state" where
  "server_recv_header env w r st =
     (case servers st w of
        None \<Rightarrow> Inl Fault
      | Some server \<Rightarrow>
          (case parse_header (server_buf server) of
             None \<Rightarrow> run [close_and_free_remote None, close_and_free_server (Some w)] st
           | Some (host, port, offset) \<Rightarrow>
               (case connect_to_remote env host port (timeout server) st of
                  (None, st1) \<Rightarrow> close_and_free_server (Some w) st1
                | (Some rp, st1) \<Rightarrow>
                    run [with_server w (\<lambda>s. s\<lparr>server_remote := Some rp\<rparr>),
                         with_remote rp (\<lambda>x. x\<lparr>remote_server := Some w\<rparr>),
                         ev_io_stop (Server_recv w),
                         ev_io_start (Remote_send rp),
                         ev_timer_start (Remote_timer rp),
                         (if offset < r
                          then with_remote rp (\<lambda>x. x\<lparr>remote_buf_len := int r - int offset,
                                 remote_buf := memcpy (remote_buf x) (drop offset (server_buf server)) (r - offset)\<rparr>)
                          else Inr),
                         with_server w (\<lambda>s. s\<lparr>stage := 4\<rparr>)] st1)))"

text \<open>Stage 5, after a read of \<open>r > 0\<close> bytes has been decrypted into \<^verbatim>\<open>remote->buf\<close>.\<close>

definition server_recv_stream :: "env \<Rightarrow> addr \<Rightarrow> addr \<Rightarrow> nat \<Rightarrow> state \<Rightarrow> error + state" where
  "server_recv_stream env w rp r st =
     (case remotes st rp of
        None \<Rightarrow> Inl Fault
      | Some remote \<Rightarrow>
          run [sys (Send (remote_fd remote) (take r (remote_buf remote))),
               (case send_ret env of
                  Inl e \<Rightarrow>
                    if would_block e
                    then run [with_remote rp (\<lambda>x. x\<lparr>remote_buf_len := int r\<rparr>),
                              ev_io_stop (Server_recv w),
                              ev_io_start (Remote_send rp)]
                    else run [close_and_free_remote (Some rp), close_and_free_server (Some w)]
                | Inr s \<Rightarrow>
                    if s < r
                    then run [with_remote rp (\<lambda>x. x\<lparr>remote_buf := move_loop (remote_buf x) 0 s r,
                                 remote_buf_len := int r - int s\<rparr>),
                              ev_io_stop (Server_recv w),
                              ev_io_start (Remote_send rp)]
                    else Inr)] st)"

definition server_recv_cb :: "env \<Rightarrow> addr \<Rightarrow> state \<Rightarrow> error + state" where
  "server_recv_cb env w st =
     (case servers st w of
        None \<Rightarrow> Inl Fault
      | Some server \<Rightarrow>
          (case (if stage server \<noteq> 0
                 then (case server_remote server of
                         None \<Rightarrow> None
                       | Some rp \<Rightarrow> map_option (\<lambda>x. (Some rp, remote_buf x)) (remotes st rp))
                 else Some (None, server_buf server)) of
             None \<Rightarrow> Inl Fault
           | Some (remote, buf) \<Rightarrow>
               (case recv_ret env of
                  Inl e \<Rightarrow>
                    if would_block e then Inr st
                    else run [close_and_free_remote remote, close_and_free_server (Some w)] st
                | Inr bytes \<Rightarrow>
                    (let data = take BUF_SIZE bytes; r = length data in
                     if r = 0
                     then run [close_and_free_remote remote, close_and_free_server (Some w)] st
                     else
                       run [(case remote of
                               None \<Rightarrow> with_server w (\<lambda>s. s\<lparr>server_buf :=
                                          decrypt_ctx (decrypt env) (recv_into buf data) r\<rparr>)
                             | Some rp \<Rightarrow> with_remote rp (\<lambda>x. x\<lparr>remote_buf :=
                                          decrypt_ctx (decrypt env) (recv_into buf data) r\<rparr>)),
                            (if stage server = 5
                             then (case remote of
                                     None \<Rightarrow> (\<lambda>st. Inl Fault)
                                   | Some rp \<Rightarrow> server_recv_stream env w rp r)
                             else if stage server = 0 then server_recv_header env w r
                             else (\<lambda>st. Inl (FATAL ''server context error.'')))] st))))"

subsection \<open>The client socket is writable: \<^verbatim>\<open>server_send_cb\<close>\<close>

definition server_send_cb :: "env \<Rightarrow> addr \<Rightarrow> state \<Rightarrow> error + state" where
  "server_send_cb env w st =
     (case servers st w of
        None \<Rightarrow> Inl Fault
      | Some server \<Rightarrow>
          (case server_remote server of
             None \<Rightarrow> close_and_free_server (Some w) st
           | Some rp \<Rightarrow>
               if server_buf_len server = 0
               then run [close_and_free_remote (Some rp), close_and_free_server (Some w)] st
               else
                 run [sys (Send (server_fd server)
                             (take (nat (server_buf_len server)) (server_buf server))),
                      (case send_ret env of
                         Inl e \<Rightarrow>
                           if \<not> would_block e
                           then run [close_and_free_remote (Some rp), close_and_free_server (Some w)]
                           else Inr
                       | Inr s \<Rightarrow>
                           if int s < server_buf_len server
                           then with_server w (\<lambda>x. x\<lparr>server_buf :=
                                    move_loop (server_buf x) 0 s (nat (server_buf_len x)),
                                  server_buf_len := server_buf_len x - int s\<rparr>)
                           else run [with_server w (\<lambda>x. x\<lparr>server_buf_len := 0\<rparr>),
                                     ev_io_stop (Server_send w),
                                     ev_io_start (Remote_recv rp)])] st))"

subsection \<open>The connect timer: \<^verbatim>\<open>remote_timeout_cb\<close>\<close>

definition remote_timeout_cb :: "env \<Rightarrow> addr \<Rightarrow> state \<Rightarrow> error + state" where
  "remote_timeout_cb env w st =
     (case remotes st w of
        None \<Rightarrow> Inl Fault
      | Some remote \<Rightarrow>
          run [ev_timer_stop (Remote_timer w),
               close_and_free_remote (Some w),
               close_and_free_server (remote_server remote)] st)"

subsection \<open>The upstream socket is readable: \<^verbatim>\<open>remote_recv_cb\<close>\<close>

definition remote_recv_cb :: "env \<Rightarrow> addr \<Rightarrow> state \<Rightarrow> error + state" where
  "remote_recv_cb env w st =
     (case remotes st w of
        None \<Rightarrow> Inl Fault
      | Some remote \<Rightarrow>
          (case remote_server remote of
             None \<Rightarrow> close_and_free_remote (Some w) st
           | Some sp \<Rightarrow>
               (case servers st sp of
                  None \<Rightarrow> Inl Fault
                | Some server \<Rightarrow>
                    (case recv_ret env of
                       Inl e \<Rightarrow>
                         if would_block e then Inr st
                         else run [close_and_free_remote (Some w), close_and_free_server (Some sp)] st
                     | Inr bytes \<Rightarrow>
                         (let data = take BUF_SIZE bytes; r = length data in
                          if r = 0
                          then run [close_and_free_remote (Some w), close_and_free_server (Some sp)] st
                          else
                            run [with_server sp (\<lambda>s. s\<lparr>server_buf :=
                                   encrypt_ctx (encrypt env) (recv_into (server_buf s) data) r\<rparr>),
                                 (\<lambda>st. case servers st sp of
                                          None \<Rightarrow> Inl Fault
                                        | Some s \<Rightarrow> sys (Send (server_fd s) (take r (server_buf s))) st),
                                 (case send_ret env of
                                    Inl e \<Rightarrow>
                                      if would_block e
                                      then run [with_server sp (\<lambda>s. s\<lparr>server_buf_len := int r\<rparr>),
                                                ev_io_stop (Remote_recv w),
                                                ev_io_start (Server_send sp)]
                                      else run [close_and_free_remote (Some w),
                                                close_and_free_server (Some sp)]
                                  | Inr s \<Rightarrow>
                                      if s < r
                                      then run [with_server sp (\<lambda>x. x\<lparr>server_buf :=
                                                   move_loop (server_buf x) 0 s r,
                                                 server_buf_len := int r - int s\<rparr>),
                                                ev_io_stop (Remote_recv w),
                                                ev_io_start (Server_send sp)]
                                      else Inr)] st)))))"

subsection \<open>The upstream socket is writable: \<^verbatim>\<open>remote_send_cb\<close>\<close>

text \<open>The second half of the callback, from \<^verbatim>\<open>if (remote->buf_len == 0)\<close> on.\<close>

definition remote_send_drain :: "env \<Rightarrow> addr \<Rightarrow> addr \<Rightarrow> state \<Rightarrow> error + state" where
  "remote_send_drain env w sp st =
     (case remotes st w of
        None \<Rightarrow> Inl Fault
      | Some remote \<Rightarrow>
          if remote_buf_len remote = 0
          then run [close_and_free_remote (Some w), close_and_free_server (Some sp)] st
          else
            run [sys (Send (remote_fd remote)
                        (take (nat (remote_buf_len remote)) (remote_buf remote))),
                 (case send_ret env of
                    Inl e \<Rightarrow>
                      if \<not> would_block e
                      then run [close_and_free_remote (Some w), close_and_free_server (Some sp)]
                      else Inr
                  | Inr s \<Rightarrow>
                      if int s < remote_buf_len remote
                      then with_remote w (\<lambda>x. x\<lparr>remote_buf :=
                               move_loop (remote_buf x) 0 s (nat (remote_buf_len x)),
                             remote_buf_len := remote_buf_len x - int s\<rparr>)
                      else run [with_remote w (\<lambda>x. x\<lparr>remote_buf_len := 0\<rparr>),
                                ev_io_stop (Remote_send w),
                                ev_io_start (Server_recv sp)])] st)"

definition remote_send_cb :: "env \<Rightarrow> addr \<Rightarrow> state \<Rightarrow> error + state" where
  "remote_send_cb env w st =
     (case remotes st w of
        None \<Rightarrow> Inl Fault
      | Some remote \<Rightarrow>
          (case remote_server remote of
             None \<Rightarrow> close_and_free_remote (Some w) st
           | Some sp \<Rightarrow>
               if \<not> connected remote
               then
                 (if getpeername_ret env = 0
                  then run ([with_remote w (\<lambda>x. x\<lparr>connected := True\<rparr>),
                             ev_timer_stop (Remote_timer w),
                             ev_io_start (Remote_recv w),
                             with_server sp (\<lambda>s. s\<lparr>stage := 5\<rparr>)] @
                            (if remote_buf_len remote = 0
                             then [ev_io_stop (Remote_send w), ev_io_start (Server_recv sp)]
                             else [remote_send_drain env w sp])) st
                  else run [close_and_free_remote (Some w), close_and_free_server (Some sp)] st)
               else remote_send_drain env w sp st))"

subsection \<open>A client connects: \<^verbatim>\<open>accept_cb\<close>\<close>

definition accept_cb :: "env \<Rightarrow> state \<Rightarrow> error + state" where
  "accept_cb env st =
     (let serverfd = accept_ret env in
      if serverfd = - 1 then Inr st
      else
        let (a, st1) = new_server env serverfd st
        in run [with_server a (\<lambda>s. s\<lparr>timeout := listener_timeout env\<rparr>),
                ev_io_start (Server_recv a)] st1)"


subsection \<open>The event loop\<close>

text \<open>
  \<^verbatim>\<open>ev_run\<close> calls a callback only for a watcher that is started (\<^verbatim>\<open>ev_io_stop\<close>
  also drops an event that is pending), so one turn of the loop is one callback of a
  started watcher, with whatever the kernel answers. \<^verbatim>\<open>malloc\<close> hands out an address
  that is not in use. A callback that ends the process (\<open>Inl\<close>) has no successor state.
\<close>

definition init :: state where
  "init = \<lparr>servers = Map.empty, remotes = Map.empty, remote_conn = 0, server_conn = 0, trace = []\<rparr>"

inductive dispatch :: "state \<Rightarrow> state \<Rightarrow> bool" where
  accept:
    "malloc_ret env \<notin> dom (servers st) \<Longrightarrow> accept_cb env st = Inr st' \<Longrightarrow> dispatch st st'"
| server_recv:
    "servers st a = Some sv \<Longrightarrow> server_recv_io sv \<Longrightarrow> malloc_ret env \<notin> dom (remotes st) \<Longrightarrow>
     server_recv_cb env a st = Inr st' \<Longrightarrow> dispatch st st'"
| server_send:
    "servers st a = Some sv \<Longrightarrow> server_send_io sv \<Longrightarrow>
     server_send_cb env a st = Inr st' \<Longrightarrow> dispatch st st'"
| remote_recv:
    "remotes st b = Some rm \<Longrightarrow> remote_recv_io rm \<Longrightarrow>
     remote_recv_cb env b st = Inr st' \<Longrightarrow> dispatch st st'"
| remote_send:
    "remotes st b = Some rm \<Longrightarrow> remote_send_io rm \<Longrightarrow>
     remote_send_cb env b st = Inr st' \<Longrightarrow> dispatch st st'"
| remote_timeout:
    "remotes st b = Some rm \<Longrightarrow> watcher rm \<Longrightarrow>
     remote_timeout_cb env b st = Inr st' \<Longrightarrow> dispatch st st'"

inductive reachable :: "state \<Rightarrow> bool" where
  start: "reachable init"
| turn: "reachable st \<Longrightarrow> dispatch st st' \<Longrightarrow> reachable st'"

subsection \<open>What holds between two callbacks\<close>

text \<open>The contents of a buffer after a read of \<open>bytes\<close> into it and the cipher's pass.\<close>

definition recv_decrypted :: "env \<Rightarrow> byte list \<Rightarrow> byte list \<Rightarrow> byte list" where
  "recv_decrypted env buf bytes =
     decrypt_ctx (decrypt env) (recv_into buf (take BUF_SIZE bytes)) (length (take BUF_SIZE bytes))"

definition recv_encrypted :: "env \<Rightarrow> byte list \<Rightarrow> byte list \<Rightarrow> byte list" where
  "recv_encrypted env buf bytes =
     encrypt_ctx (encrypt env) (recv_into buf (take BUF_SIZE bytes)) (length (take BUF_SIZE bytes))"

text \<open>
  Stage 5: per direction, the source is read iff the buffer is empty and the destination
  is watched for writing iff it is not.
\<close>

definition streaming :: "server \<Rightarrow> remote \<Rightarrow> bool" where
  "streaming sv rm =
     ((server_recv_io sv \<longleftrightarrow> remote_buf_len rm = 0) \<and>
      (remote_send_io rm \<longleftrightarrow> remote_buf_len rm \<noteq> 0) \<and>
      (remote_recv_io rm \<longleftrightarrow> server_buf_len sv = 0) \<and>
      (server_send_io sv \<longleftrightarrow> server_buf_len sv \<noteq> 0))"

text \<open>A server that has no remote yet waits for the header.\<close>

definition lone_inv :: "server \<Rightarrow> bool" where
  "lone_inv sv =
     (stage sv = 0 \<and> server_recv_io sv \<and> \<not> server_send_io sv \<and> server_buf_len sv = 0 \<and>
      length (server_buf sv) = BUF_SIZE)"

text \<open>A server with its remote is in stage 4 or in stage 5.\<close>

definition pair_inv :: "server \<Rightarrow> remote \<Rightarrow> bool" where
  "pair_inv sv rm =
     (length (server_buf sv) = BUF_SIZE \<and> length (remote_buf rm) = BUF_SIZE \<and>
      0 \<le> server_buf_len sv \<and> server_buf_len sv \<le> int BUF_SIZE \<and>
      0 \<le> remote_buf_len rm \<and> remote_buf_len rm \<le> int BUF_SIZE \<and>
      (stage sv = 4 \<and> \<not> connected rm \<and> watcher rm \<and> \<not> server_recv_io sv \<and>
         \<not> server_send_io sv \<and> \<not> remote_recv_io rm \<and> remote_send_io rm \<and>
         server_buf_len sv = 0
       \<or> stage sv = 5 \<and> connected rm \<and> \<not> watcher rm \<and> streaming sv rm))"

definition pair_ok :: "state \<Rightarrow> addr \<Rightarrow> addr \<Rightarrow> bool" where
  "pair_ok st a b =
     (case servers st a of
        None \<Rightarrow> False
      | Some sv \<Rightarrow>
          (case remotes st b of
             None \<Rightarrow> False
           | Some rm \<Rightarrow>
               server_remote sv = Some b \<and> remote_server rm = Some a \<and> pair_inv sv rm))"

definition loop_inv :: "state \<Rightarrow> bool" where
  "loop_inv st =
     ((\<forall>a sv. servers st a = Some sv \<longrightarrow>
         (case server_remote sv of None \<Rightarrow> lone_inv sv | Some b \<Rightarrow> pair_ok st a b)) \<and>
      (\<forall>b rm. remotes st b = Some rm \<longrightarrow>
         (case remote_server rm of None \<Rightarrow> False | Some a \<Rightarrow> pair_ok st a b)))"

subsection \<open>Example sessions\<close>

text \<open>
  A heap with one server at address 0 and no remote, and a heap with one session: a
  server at address 0 and a remote at address 0 of the other store, each pointing to the
  other.
\<close>

definition lone :: "server \<Rightarrow> state" where
  "lone sv =
     \<lparr>servers = [0 \<mapsto> sv], remotes = Map.empty, remote_conn = 0, server_conn = 1, trace = []\<rparr>"

definition session :: "server \<Rightarrow> remote \<Rightarrow> state" where
  "session sv rm =
     \<lparr>servers = [0 \<mapsto> sv\<lparr>server_remote := Some 0\<rparr>],
      remotes = [0 \<mapsto> rm\<lparr>remote_server := Some 0\<rparr>],
      remote_conn = 1,
      server_conn = 1,
      trace = []\<rparr>"

definition ex_server :: "int \<Rightarrow> byte list \<Rightarrow> int \<Rightarrow> bool \<Rightarrow> bool \<Rightarrow> server" where
  "ex_server stg buf n rd wr =
     \<lparr>server_fd = 4, server_buf = buf @ replicate (BUF_SIZE - length buf) 0, stage = stg,
      server_buf_len = n, server_recv_io = rd, server_send_io = wr, server_remote = None,
      timeout = 60\<rparr>"

definition ex_remote :: "bool \<Rightarrow> byte list \<Rightarrow> int \<Rightarrow> bool \<Rightarrow> bool \<Rightarrow> remote" where
  "ex_remote conn buf n rd wr =
     \<lparr>remote_fd = 5, remote_buf = buf @ replicate (BUF_SIZE - length buf) 0,
      remote_buf_len = n, remote_recv_io = rd, remote_send_io = wr, watcher = \<not> conn,
      connected = conn, remote_server = None\<rparr>"

text \<open>What a callback's result shows: the stage of a server, and the requests made.\<close>

definition stage_of :: "addr \<Rightarrow> state \<Rightarrow> int option" where
  "stage_of a st = map_option stage (servers st a)"

definition ex_env :: env where
  "ex_env =
     \<lparr>recv_ret = Inl EAGAIN, send_ret = Inl EAGAIN, getpeername_ret = 0, getaddrinfo_ret = 0,
      socket_ret = 5, accept_ret = 4, malloc_ret = 0, malloc_buf = [],
      decrypt = (\<lambda>bs. bs), encrypt = (\<lambda>bs. bs), listener_timeout = 60\<rparr>"

text \<open>
  A session on its way: accepted, then the header \<^verbatim>\<open>01 7F 00 00 01 00 50\<close> read (stage
  4), then the connect confirmed (stage 5).
\<close>

definition ex_awaiting :: state where
  "ex_awaiting =
     (session (ex_server 4 [1, 127, 0, 0, 1, 0, 80] 0 False False) (ex_remote False [] 0 False True))
       \<lparr>trace := [Getaddrinfo ''127.0.0.1'' ''80'', Connect 5]\<rparr>"

definition ex_streaming :: state where
  "ex_streaming =
     (session (ex_server 5 [1, 127, 0, 0, 1, 0, 80] 0 True False) (ex_remote True [] 0 True False))
       \<lparr>trace := [Getaddrinfo ''127.0.0.1'' ''80'', Connect 5]\<rparr>"

section \<open>Properties\<close>

lemmas stmt_defs = with_server_def with_remote_def sys_def ev_io_start_def ev_io_stop_def
  ev_timer_start_def ev_timer_stop_def

lemmas ex_defs = lone_def session_def ex_server_def ex_remote_def ex_env_def

subsection \<open>The carry-over loop\<close>

lemma length_move_loop [simp]: "length (move_loop buf pt s et) = length buf"
proof (induction buf pt s et rule: move_loop.induct)
  case (1 buf pt s et)
  show ?case
  proof (cases "pt + s < et")
    case True
    with 1 show ?thesis by (subst move_loop.simps) simp
  next
    case False
    then show ?thesis by (subst move_loop.simps) simp
  qed
qed

lemma nth_move_loop:
  "et \<le> length buf \<Longrightarrow> i < length buf \<Longrightarrow>
   move_loop buf pt s et ! i = (if pt \<le> i \<and> i + s < et then buf ! (i + s) else buf ! i)"
proof (induction buf pt s et rule: move_loop.induct)
  case (1 buf pt s et)
  show ?case
  proof (cases "pt + s < et")
    case True
    have "move_loop buf pt s et = move_loop (buf[pt := buf ! (pt + s)]) (pt + 1) s et"
      using True by (subst move_loop.simps) simp
    moreover have "move_loop (buf[pt := buf ! (pt + s)]) (pt + 1) s et ! i =
      (if pt + 1 \<le> i \<and> i + s < et then (buf[pt := buf ! (pt + s)]) ! (i + s)
       else (buf[pt := buf ! (pt + s)]) ! i)"
      using 1 True by simp
    ultimately show ?thesis using 1(2,3) True
      by (auto simp: nth_list_update)
  next
    case False
    then show ?thesis by (subst move_loop.simps) auto
  qed
qed

lemma move_loop_carry:
  assumes "n \<le> length buf" "s \<le> n"
  shows "take (n - s) (move_loop buf 0 s n) = drop s (take n buf)"
proof (rule nth_equalityI)
  show "length (take (n - s) (move_loop buf 0 s n)) = length (drop s (take n buf))"
    using assms by simp
next
  fix i assume "i < length (take (n - s) (move_loop buf 0 s n))"
  then have i: "i < n - s" by simp
  then have "i + s < n" by arith
  with i show "take (n - s) (move_loop buf 0 s n) ! i = drop s (take n buf) ! i"
    using assms by (simp add: nth_move_loop add.commute)
qed

subsection \<open>Tear-down and the peer references\<close>

text \<open>
  C9. For a server and a remote that point to each other, \<^verbatim>\<open>free_remote\<close> sets the
  server's \<^verbatim>\<open>remote\<close> pointer to NULL and then releases the remote, and
  \<^verbatim>\<open>free_server\<close> sets the remote's \<^verbatim>\<open>server\<close> pointer to NULL and then releases the
  server: in the heap that results the freed endpoint is gone, the surviving peer is
  still there, and its back-pointer is NULL, so nothing refers to the freed endpoint.
\<close>

theorem free_clears_back_reference:
  assumes "servers st a = Some sv" and "remotes st b = Some rm"
    and "server_remote sv = Some b" and "remote_server rm = Some a"
  shows "free_remote (Some b) st =
           Inr (st\<lparr>remote_conn := remote_conn st - 1,
                   servers := (servers st)(a \<mapsto> sv\<lparr>server_remote := None\<rparr>),
                   remotes := (remotes st)(b := None)\<rparr>)
       \<and> free_server (Some a) st =
           Inr (st\<lparr>server_conn := server_conn st - 1,
                   remotes := (remotes st)(b \<mapsto> rm\<lparr>remote_server := None\<rparr>),
                   servers := (servers st)(a := None)\<rparr>)"
  using assms by (simp add: free_remote_def free_server_def stmt_defs)

theorem free_clears_back_reference_witness:
  "(\<exists>st'. free_remote (Some 0) (session (ex_server 5 [] 0 True False) (ex_remote True [] 0 True False)) = Inr st'
       \<and> remotes st' 0 = None
       \<and> map_option server_remote (servers st' 0) = Some None)
 \<and> (\<exists>st'. free_server (Some 0) (session (ex_server 5 [] 0 True False) (ex_remote True [] 0 True False)) = Inr st'
       \<and> servers st' 0 = None
       \<and> map_option remote_server (remotes st' 0) = Some None)"
  using free_clears_back_reference
    [of "session (ex_server 5 [] 0 True False) (ex_remote True [] 0 True False)" 0
        "(ex_server 5 [] 0 True False)\<lparr>server_remote := Some 0\<rparr>" 0
        "(ex_remote True [] 0 True False)\<lparr>remote_server := Some 0\<rparr>"]
  by (simp add: session_def)

subsection \<open>Running statements\<close>

lemma run_single [simp]: "run [c] st = c st"
  by (cases "c st") auto

lemma sum_case_run_Nil [simp]: "(case r of Inl e \<Rightarrow> Inl e | Inr x \<Rightarrow> run [] x) = r"
  by (cases r) auto

lemma fun_upd_same_eq [simp]: "(f(a := x) = f(a := y)) \<longleftrightarrow> x = y"
  by (auto dest: fun_upd_eqD)

lemmas free_defs = close_and_free_remote_def close_and_free_server_def free_remote_def
  free_server_def

subsection \<open>Buffers keep their size\<close>

lemma length_recv_into:
  "length data \<le> length buf \<Longrightarrow> length (recv_into buf data) = length buf"
  by (simp add: recv_into_def)

lemma length_crypt_in_place:
  "r \<le> length buf \<Longrightarrow> length (crypt_in_place f buf r) = length buf"
  by (simp add: crypt_in_place_def Let_def)

lemma length_recv_decrypted:
  "length buf = BUF_SIZE \<Longrightarrow> length (recv_decrypted env buf bytes) = BUF_SIZE"
  by (simp add: recv_decrypted_def decrypt_ctx_def length_crypt_in_place length_recv_into)

lemma length_recv_encrypted:
  "length buf = BUF_SIZE \<Longrightarrow> length (recv_encrypted env buf bytes) = BUF_SIZE"
  by (simp add: recv_encrypted_def encrypt_ctx_def length_crypt_in_place length_recv_into)

lemma length_malloc_bytes: "length (malloc_bytes env) = BUF_SIZE"
  by (simp add: malloc_bytes_def)

subsection \<open>The first read\<close>

lemma server_recv_cb_stage0:
  assumes "servers st a = Some sv" "stage sv = 0" "recv_ret env = Inr bytes" "bytes \<noteq> []"
  shows "server_recv_cb env a st =
     server_recv_header env a (min (length bytes) BUF_SIZE)
       (st\<lparr>servers := (servers st)(a \<mapsto> sv\<lparr>server_buf := recv_decrypted env (server_buf sv) bytes\<rparr>)\<rparr>)"
  using assms by (simp add: server_recv_cb_def recv_decrypted_def stmt_defs BUF_SIZE_def Let_def)

lemma parse_header_None: "parse_header buf = None \<longleftrightarrow> buf ! 0 \<noteq> 1 \<and> buf ! 0 \<noteq> 3"
  by (simp add: parse_header_def Let_def)

lemma parse_header_ipv4:
  assumes "buf ! 0 = 1" "7 \<le> length buf"
  shows "parse_header buf =
     Some (decimal (unat (buf ! 1)) @ ''.'' @ decimal (unat (buf ! 2)) @ ''.'' @
           decimal (unat (buf ! 3)) @ ''.'' @ decimal (unat (buf ! 4)),
           decimal (256 * unat (buf ! 5) + unat (buf ! 6)), 7)"
proof -
  have "take 4 (drop 1 buf) = [buf ! 1, buf ! 2, buf ! 3, buf ! 4]"
    using assms(2) by (simp add: eval_nat_numeral take_Suc_conv_app_nth)
  with assms show ?thesis
    by (simp add: parse_header_def Let_def push_bit_eq_mult mult.commute)
qed

lemma server_recv_header_connect_failed:
  assumes "servers st a = Some sv" "server_remote sv = None"
    "parse_header (server_buf sv) = Some (host, port, offset)"
    "getaddrinfo_ret env \<noteq> 0 \<or> socket_ret env < 0"
  shows "server_recv_header env a r st =
     Inr (st\<lparr>servers := (servers st)(a := None), server_conn := server_conn st - 1,
        trace := trace st @ Getaddrinfo host port #
          (if getaddrinfo_ret env \<noteq> 0 then [] else [Close (socket_ret env)]) @
          [Close (server_fd sv)]\<rparr>)"
  using assms
  by (auto simp add: server_recv_header_def connect_to_remote_def Let_def free_defs stmt_defs)

lemma server_recv_header_connected:
  assumes "servers st a = Some sv"
    "parse_header (server_buf sv) = Some (host, port, offset)"
    "getaddrinfo_ret env = 0" "0 \<le> socket_ret env"
  shows "server_recv_header env a r st =
     Inr (st\<lparr>servers := (servers st)(a \<mapsto> sv\<lparr>stage := 4, server_recv_io := False,
                  server_remote := Some (malloc_ret env)\<rparr>),
             remotes := (remotes st)(malloc_ret env \<mapsto>
               \<lparr>remote_fd = socket_ret env,
                remote_buf = (if offset < r
                   then memcpy (malloc_bytes env) (drop offset (server_buf sv)) (r - offset)
                   else malloc_bytes env),
                remote_buf_len = (if offset < r then int r - int offset else 0),
                remote_recv_io = False, remote_send_io = True, watcher = True,
                connected = False, remote_server = Some a\<rparr>),
             remote_conn := remote_conn st + 1,
             trace := trace st @ [Getaddrinfo host port, Connect (socket_ret env)]\<rparr>)"
  using assms
  by (simp add: server_recv_header_def connect_to_remote_def new_remote_def Let_def stmt_defs)

lemma ex_recv_decrypted:
  "length bytes \<le> 64 \<Longrightarrow>
   recv_decrypted (ex_env\<lparr>recv_ret := x\<rparr>) (replicate BUF_SIZE 0) bytes =
     bytes @ replicate (BUF_SIZE - length bytes) 0"
  by (simp add: recv_decrypted_def decrypt_ctx_def crypt_in_place_def recv_into_def ex_env_def
      BUF_SIZE_def Let_def)

text \<open>
  C4. On the first read (stage 0), when the first decrypted byte is 1, the callback's
  first request is the address lookup of connect_to_remote, for the host that is the dotted
  decimal text of the bytes at offsets 1 to 4 of the decrypted buffer and the port that
  is the decimal text of 256 * buf[5] + buf[6].
\<close>

theorem ipv4_target:
  assumes "servers st a = Some sv" and "stage sv = 0" and "server_remote sv = None"
    and "length (server_buf sv) = BUF_SIZE"
    and "recv_ret env = Inr bytes" and "bytes \<noteq> []"
    and "dbuf = recv_decrypted env (server_buf sv) bytes"
    and "dbuf ! 0 = 1"
  shows "\<exists>st'. server_recv_cb env a st = Inr st' \<and>
           take (Suc (length (trace st))) (trace st') =
             trace st @ [Getaddrinfo
               (decimal (unat (dbuf ! 1)) @ ''.'' @ decimal (unat (dbuf ! 2)) @ ''.'' @
                decimal (unat (dbuf ! 3)) @ ''.'' @ decimal (unat (dbuf ! 4)))
               (decimal (256 * unat (dbuf ! 5) + unat (dbuf ! 6)))]"
proof -
  let ?st = "st\<lparr>servers := (servers st)(a \<mapsto> sv\<lparr>server_buf := dbuf\<rparr>)\<rparr>"
  have len: "7 \<le> length dbuf"
    using assms(4,7) by (simp add: length_recv_decrypted BUF_SIZE_def)
  note ph = parse_header_ipv4 [OF assms(8) len]
  have cb: "server_recv_cb env a st = server_recv_header env a (min (length bytes) BUF_SIZE) ?st"
    using assms by (simp add: server_recv_cb_stage0)
  have sv: "servers ?st a = Some (sv\<lparr>server_buf := dbuf\<rparr>)" by simp
  show ?thesis
  proof (cases "getaddrinfo_ret env \<noteq> 0 \<or> socket_ret env < 0")
    case True
    from server_recv_header_connect_failed [OF sv _ _ True, of _ _ 7] ph assms(3)
    show ?thesis unfolding cb by simp
  next
    case False
    from server_recv_header_connected [OF sv, of _ _ 7] ph False
    show ?thesis unfolding cb by simp
  qed
qed

theorem ipv4_target_witness:
  "\<exists>st'. server_recv_cb (ex_env\<lparr>recv_ret := Inr [1, 127, 0, 0, 1, 0, 80]\<rparr>) 0
            (lone (ex_server 0 [] 0 True False)) = Inr st' \<and>
         take 1 (trace st') = [Getaddrinfo ''127.0.0.1'' ''80'']"
  using ipv4_target [of "lone (ex_server 0 [] 0 True False)" 0 "ex_server 0 [] 0 True False"
      "ex_env\<lparr>recv_ret := Inr [1, 127, 0, 0, 1, 0, 80]\<rparr>" "[1, 127, 0, 0, 1, 0, 80]"
      "[1, 127, 0, 0, 1, 0, 80] @ replicate (BUF_SIZE - 7) 0"]
  by (simp add: lone_def ex_server_def ex_recv_decrypted decimal.simps digit_def)

text \<open>
  C6. On the first read (stage 0), when the first decrypted byte is neither 1 nor 3 (so
  also when it is 2 or 4), the callback closes the client socket and frees the server; it
  makes no other request (no address lookup, no connect) and creates no remote.
\<close>

theorem unsupported_addrtype:
  assumes "servers st a = Some sv" and "stage sv = 0" and "server_remote sv = None"
    and "recv_ret env = Inr bytes" and "bytes \<noteq> []"
    and "recv_decrypted env (server_buf sv) bytes ! 0 \<noteq> 1"
    and "recv_decrypted env (server_buf sv) bytes ! 0 \<noteq> 3"
  shows "server_recv_cb env a st =
     Inr (st\<lparr>servers := (servers st)(a := None), server_conn := server_conn st - 1,
             trace := trace st @ [Close (server_fd sv)]\<rparr>)"
proof -
  have "parse_header (recv_decrypted env (server_buf sv) bytes) = None"
    using assms by (simp add: parse_header_None)
  with assms show ?thesis
    by (simp add: server_recv_cb_stage0 server_recv_header_def free_defs stmt_defs)
qed

theorem unsupported_addrtype_witness:
  "server_recv_cb (ex_env\<lparr>recv_ret := Inr [4, 0, 0, 0, 0, 0, 0, 0, 0, 0, 0, 0, 0, 0, 0, 0, 1, 0, 80]\<rparr>) 0
     (lone (ex_server 0 [] 0 True False)) =
   Inr \<lparr>servers = Map.empty, remotes = Map.empty, remote_conn = 0, server_conn = 0,
        trace = [Close 4]\<rparr>
 \<and> server_recv_cb (ex_env\<lparr>recv_ret := Inr [2, 127, 0, 0, 1, 0, 80]\<rparr>) 0
     (lone (ex_server 0 [] 0 True False)) =
   Inr \<lparr>servers = Map.empty, remotes = Map.empty, remote_conn = 0, server_conn = 0,
        trace = [Close 4]\<rparr>"
  using unsupported_addrtype [of "lone (ex_server 0 [] 0 True False)" 0 "ex_server 0 [] 0 True False"
      "ex_env\<lparr>recv_ret := Inr [4, 0, 0, 0, 0, 0, 0, 0, 0, 0, 0, 0, 0, 0, 0, 0, 1, 0, 80]\<rparr>"
      "[4, 0, 0, 0, 0, 0, 0, 0, 0, 0, 0, 0, 0, 0, 0, 0, 1, 0, 80]"]
    unsupported_addrtype [of "lone (ex_server 0 [] 0 True False)" 0 "ex_server 0 [] 0 True False"
      "ex_env\<lparr>recv_ret := Inr [2, 127, 0, 0, 1, 0, 80]\<rparr>" "[2, 127, 0, 0, 1, 0, 80]"]
  by (simp add: lone_def ex_server_def ex_recv_decrypted)

text \<open>
  C5. On the first read (stage 0) of \<open>r\<close> bytes, when the header parses with length
  \<open>offset < r\<close> and connect_to_remote returns a remote, the callback leaves the session in
  stage 4 with the new remote linked to the server, the remote's \<^verbatim>\<open>buf_len\<close> equal to
  \<open>r - offset\<close>, and the first \<open>r - offset\<close> bytes of the remote's buffer equal to the
  decrypted bytes \<open>offset .. r - 1\<close> of the read.
\<close>

theorem header_payload_carried_over:
  assumes "servers st a = Some sv" and "stage sv = 0"
    and "length (server_buf sv) = BUF_SIZE"
    and "recv_ret env = Inr bytes" and "bytes \<noteq> []"
    and "r = min (length bytes) BUF_SIZE"
    and "dbuf = recv_decrypted env (server_buf sv) bytes"
    and "parse_header dbuf = Some (host, port, offset)" and "offset < r"
    and "getaddrinfo_ret env = 0" and "0 \<le> socket_ret env"
  shows "\<exists>st' sv' rm'. server_recv_cb env a st = Inr st' \<and>
           servers st' a = Some sv' \<and> stage sv' = 4 \<and> server_remote sv' = Some (malloc_ret env) \<and>
           remotes st' (malloc_ret env) = Some rm' \<and> remote_server rm' = Some a \<and>
           remote_buf_len rm' = int r - int offset \<and>
           take (r - offset) (remote_buf rm') = drop offset (take r dbuf)"
proof -
  let ?st = "st\<lparr>servers := (servers st)(a \<mapsto> sv\<lparr>server_buf := dbuf\<rparr>)\<rparr>"
  have cb: "server_recv_cb env a st = server_recv_header env a r ?st"
    using assms by (simp add: server_recv_cb_stage0)
  have sv: "servers ?st a = Some (sv\<lparr>server_buf := dbuf\<rparr>)" by simp
  have len: "length dbuf = BUF_SIZE"
    using assms(3,7) by (simp add: length_recv_decrypted)
  have "r \<le> BUF_SIZE" using assms(6) by simp
  with len assms(9)
  have "take (r - offset) (memcpy (malloc_bytes env) (drop offset dbuf) (r - offset)) =
        drop offset (take r dbuf)"
    by (simp add: memcpy_def drop_take)
  with server_recv_header_connected [OF sv, of host port offset env r] assms(8-11)
  show ?thesis unfolding cb by simp
qed

theorem header_payload_carried_over_witness:
  "\<exists>st' sv' rm'. server_recv_cb (ex_env\<lparr>recv_ret := Inr [1, 127, 0, 0, 1, 0, 80, 71, 69, 84]\<rparr>) 0
            (lone (ex_server 0 [] 0 True False)) = Inr st' \<and>
           servers st' 0 = Some sv' \<and> stage sv' = 4 \<and> server_remote sv' = Some 0 \<and>
           remotes st' 0 = Some rm' \<and> remote_server rm' = Some 0 \<and>
           remote_buf_len rm' = 3 \<and> take 3 (remote_buf rm') = [71, 69, 84]"
  using header_payload_carried_over [of "lone (ex_server 0 [] 0 True False)" 0
      "ex_server 0 [] 0 True False"
      "ex_env\<lparr>recv_ret := Inr [1, 127, 0, 0, 1, 0, 80, 71, 69, 84]\<rparr>"
      "[1, 127, 0, 0, 1, 0, 80, 71, 69, 84]" 10
      "[1, 127, 0, 0, 1, 0, 80, 71, 69, 84] @ replicate (BUF_SIZE - 10) 0"
      "''127.0.0.1''" "''80''" 7]
  apply (simp add: lone_def ex_server_def ex_recv_decrypted)
  apply (simp add: parse_header_def decimal.simps digit_def Let_def ex_env_def BUF_SIZE_def)
  done

text \<open>
  C7, as stated: a first read that returns only the address type byte 1, into a buffer
  that held other bytes before, is not torn down. The callback looks up and connects to
  the host and port that the old bytes of the buffer spell, and the session is in stage 4.
\<close>

theorem short_header_counterexample:
  "map_sum id (stage_of 0)
     (server_recv_cb (ex_env\<lparr>recv_ret := Inr [1]\<rparr>) 0
        (lone (ex_server 0 [9, 10, 0, 0, 7, 0, 25] 0 True False))) =
     Inr (Some 4)
 \<and> map_sum id trace
     (server_recv_cb (ex_env\<lparr>recv_ret := Inr [1]\<rparr>) 0
        (lone (ex_server 0 [9, 10, 0, 0, 7, 0, 25] 0 True False))) =
     Inr [Getaddrinfo ''10.0.0.7'' ''25'', Connect 5]"
  apply (simp add: server_recv_cb_stage0 lone_def ex_server_def)
  apply (simp add: server_recv_header_def connect_to_remote_def new_remote_def stmt_defs
       recv_decrypted_def decrypt_ctx_def crypt_in_place_def recv_into_def ex_env_def Let_def
       parse_header_def decimal.simps digit_def BUF_SIZE_def stage_of_def)
  done

text \<open>
  C7, amended. The callback never compares the number of bytes read with the length of
  the header. On a first read (stage 0) of \<open>r\<close> bytes, fewer than the header length
  \<open>offset\<close> that the buffer's contents give, with address type 1 or 3 (the header
  parses), and when connect_to_remote returns a remote: host and port are taken from the
  buffer (beyond the first \<open>r\<close> bytes, from what it held before), the lookup and the
  connect are made for them, the session enters stage 4, and the new remote's buffer is
  empty (\<^verbatim>\<open>buf_len\<close> 0): nothing is carried over as payload.
\<close>

theorem short_header_not_detected:
  assumes "servers st a = Some sv" and "stage sv = 0"
    and "recv_ret env = Inr bytes" and "bytes \<noteq> []"
    and "r = min (length bytes) BUF_SIZE"
    and "dbuf = recv_decrypted env (server_buf sv) bytes"
    and "parse_header dbuf = Some (host, port, offset)" and "r < offset"
    and "getaddrinfo_ret env = 0" and "0 \<le> socket_ret env"
  shows "server_recv_cb env a st =
     Inr (st\<lparr>servers := (servers st)(a \<mapsto> sv\<lparr>server_buf := dbuf, stage := 4,
                  server_recv_io := False, server_remote := Some (malloc_ret env)\<rparr>),
             remotes := (remotes st)(malloc_ret env \<mapsto>
               \<lparr>remote_fd = socket_ret env, remote_buf = malloc_bytes env, remote_buf_len = 0,
                remote_recv_io = False, remote_send_io = True, watcher = True,
                connected = False, remote_server = Some a\<rparr>),
             remote_conn := remote_conn st + 1,
             trace := trace st @ [Getaddrinfo host port, Connect (socket_ret env)]\<rparr>)"
proof -
  let ?st = "st\<lparr>servers := (servers st)(a \<mapsto> sv\<lparr>server_buf := dbuf\<rparr>)\<rparr>"
  have cb: "server_recv_cb env a st = server_recv_header env a r ?st"
    using assms by (simp add: server_recv_cb_stage0)
  have sv: "servers ?st a = Some (sv\<lparr>server_buf := dbuf\<rparr>)" by simp
  from server_recv_header_connected [OF sv, of host port offset env r] assms(7-10)
  show ?thesis unfolding cb by simp
qed

theorem short_header_not_detected_witness:
  "server_recv_cb (ex_env\<lparr>recv_ret := Inr [1, 127, 0, 0, 1]\<rparr>) 0
      (lone (ex_server 0 [] 0 True False)) =
     Inr \<lparr>servers = [0 \<mapsto> (ex_server 4 [1, 127, 0, 0, 1] 0 False False)\<lparr>server_remote := Some 0\<rparr>],
          remotes = [0 \<mapsto> (ex_remote False [] 0 False True)\<lparr>remote_server := Some 0\<rparr>],
          remote_conn = 1, server_conn = 1,
          trace = [Getaddrinfo ''127.0.0.1'' ''0'', Connect 5]\<rparr>"
  using short_header_not_detected [of "lone (ex_server 0 [] 0 True False)" 0
      "ex_server 0 [] 0 True False" "ex_env\<lparr>recv_ret := Inr [1, 127, 0, 0, 1]\<rparr>"
      "[1, 127, 0, 0, 1]" 5
      "[1, 127, 0, 0, 1] @ replicate (BUF_SIZE - 5) 0" "''127.0.0.1''" "''0''" 7]
  apply (simp add: lone_def ex_server_def ex_recv_decrypted)
  apply (simp add: parse_header_def decimal.simps digit_def Let_def ex_env_def BUF_SIZE_def
      ex_remote_def malloc_bytes_def)
  done

subsection \<open>What each callback does to a session\<close>

text \<open>
  For a server and a remote that point to each other, the result of each callback as an
  explicit heap, by what the kernel answers.
\<close>

lemma server_recv_cb_wait:
  assumes "servers st a = Some sv"
    "stage sv \<noteq> 0 \<longrightarrow> (\<exists>b rm. server_remote sv = Some b \<and> remotes st b = Some rm)"
    "recv_ret env = Inl e" "would_block e"
  shows "server_recv_cb env a st = Inr st"
  using assms by (auto simp add: server_recv_cb_def)

lemma server_recv_cb_closed:
  assumes "servers st a = Some sv" "stage sv \<noteq> 0" "server_remote sv = Some b"
    "remotes st b = Some rm" "remote_server rm = Some a"
    "recv_ret env = Inr [] \<or> (\<exists>e. recv_ret env = Inl e \<and> \<not> would_block e)"
  shows "server_recv_cb env a st =
     Inr (st\<lparr>servers := (servers st)(a := None), remotes := (remotes st)(b := None),
             remote_conn := remote_conn st - 1, server_conn := server_conn st - 1,
             trace := trace st @ [Close (remote_fd rm), Close (server_fd sv)]\<rparr>)"
  using assms by (auto simp add: server_recv_cb_def free_defs stmt_defs)

lemma server_recv_cb_closed_lone:
  assumes "servers st a = Some sv" "stage sv = 0" "server_remote sv = None"
    "recv_ret env = Inr [] \<or> (\<exists>e. recv_ret env = Inl e \<and> \<not> would_block e)"
  shows "server_recv_cb env a st =
     Inr (st\<lparr>servers := (servers st)(a := None), server_conn := server_conn st - 1,
             trace := trace st @ [Close (server_fd sv)]\<rparr>)"
  using assms by (auto simp add: server_recv_cb_def free_defs stmt_defs)

lemma server_recv_cb_stage5:
  assumes "servers st a = Some sv" "stage sv = 5" "server_remote sv = Some b"
    "remotes st b = Some rm" "remote_server rm = Some a"
    "recv_ret env = Inr bytes" "bytes \<noteq> []"
    "r = min (length bytes) BUF_SIZE" "dbuf = recv_decrypted env (remote_buf rm) bytes"
  shows "server_recv_cb env a st =
    (case send_ret env of
       Inl e \<Rightarrow>
         if would_block e
         then Inr (st\<lparr>servers := (servers st)(a \<mapsto> sv\<lparr>server_recv_io := False\<rparr>),
                 remotes := (remotes st)(b \<mapsto> rm\<lparr>remote_buf := dbuf, remote_buf_len := int r,
                    remote_send_io := True\<rparr>),
                 trace := trace st @ [Send (remote_fd rm) (take r dbuf)]\<rparr>)
         else Inr (st\<lparr>servers := (servers st)(a := None), remotes := (remotes st)(b := None),
                 remote_conn := remote_conn st - 1, server_conn := server_conn st - 1,
                 trace := trace st @ [Send (remote_fd rm) (take r dbuf), Close (remote_fd rm),
                    Close (server_fd sv)]\<rparr>)
     | Inr s \<Rightarrow>
         if s < r
         then Inr (st\<lparr>servers := (servers st)(a \<mapsto> sv\<lparr>server_recv_io := False\<rparr>),
                 remotes := (remotes st)(b \<mapsto> rm\<lparr>remote_buf := move_loop dbuf 0 s r,
                    remote_buf_len := int r - int s, remote_send_io := True\<rparr>),
                 trace := trace st @ [Send (remote_fd rm) (take r dbuf)]\<rparr>)
         else Inr (st\<lparr>remotes := (remotes st)(b \<mapsto> rm\<lparr>remote_buf := dbuf\<rparr>),
                 trace := trace st @ [Send (remote_fd rm) (take r dbuf)]\<rparr>))"
  using assms
  by (simp add: server_recv_cb_def server_recv_stream_def recv_decrypted_def Let_def
      stmt_defs free_defs BUF_SIZE_def split: sum.splits)

lemma remote_recv_cb_wait:
  assumes "remotes st b = Some rm" "remote_server rm = Some a" "servers st a = Some sv"
    "recv_ret env = Inl e" "would_block e"
  shows "remote_recv_cb env b st = Inr st"
  using assms by (auto simp add: remote_recv_cb_def)

lemma remote_recv_cb_closed:
  assumes "servers st a = Some sv" "server_remote sv = Some b"
    "remotes st b = Some rm" "remote_server rm = Some a"
    "recv_ret env = Inr [] \<or> (\<exists>e. recv_ret env = Inl e \<and> \<not> would_block e)"
  shows "remote_recv_cb env b st =
     Inr (st\<lparr>servers := (servers st)(a := None), remotes := (remotes st)(b := None),
             remote_conn := remote_conn st - 1, server_conn := server_conn st - 1,
             trace := trace st @ [Close (remote_fd rm), Close (server_fd sv)]\<rparr>)"
  using assms by (auto simp add: remote_recv_cb_def free_defs stmt_defs)

lemma remote_recv_cb_data:
  assumes "servers st a = Some sv" "server_remote sv = Some b"
    "remotes st b = Some rm" "remote_server rm = Some a"
    "recv_ret env = Inr bytes" "bytes \<noteq> []"
    "r = min (length bytes) BUF_SIZE" "ebuf = recv_encrypted env (server_buf sv) bytes"
  shows "remote_recv_cb env b st =
    (case send_ret env of
       Inl e \<Rightarrow>
         if would_block e
         then Inr (st\<lparr>servers := (servers st)(a \<mapsto> sv\<lparr>server_buf := ebuf,
                    server_buf_len := int r, server_send_io := True\<rparr>),
                 remotes := (remotes st)(b \<mapsto> rm\<lparr>remote_recv_io := False\<rparr>),
                 trace := trace st @ [Send (server_fd sv) (take r ebuf)]\<rparr>)
         else Inr (st\<lparr>servers := (servers st)(a := None), remotes := (remotes st)(b := None),
                 remote_conn := remote_conn st - 1, server_conn := server_conn st - 1,
                 trace := trace st @ [Send (server_fd sv) (take r ebuf), Close (remote_fd rm),
                    Close (server_fd sv)]\<rparr>)
     | Inr s \<Rightarrow>
         if s < r
         then Inr (st\<lparr>servers := (servers st)(a \<mapsto> sv\<lparr>server_buf := move_loop ebuf 0 s r,
                    server_buf_len := int r - int s, server_send_io := True\<rparr>),
                 remotes := (remotes st)(b \<mapsto> rm\<lparr>remote_recv_io := False\<rparr>),
                 trace := trace st @ [Send (server_fd sv) (take r ebuf)]\<rparr>)
         else Inr (st\<lparr>servers := (servers st)(a \<mapsto> sv\<lparr>server_buf := ebuf\<rparr>),
                 trace := trace st @ [Send (server_fd sv) (take r ebuf)]\<rparr>))"
  using assms
  by (simp add: remote_recv_cb_def recv_encrypted_def Let_def
      stmt_defs free_defs BUF_SIZE_def split: sum.splits)

lemma server_send_cb_pair:
  assumes "servers st a = Some sv" "server_remote sv = Some b"
    "remotes st b = Some rm" "remote_server rm = Some a"
    "n = server_buf_len sv"
  shows "server_send_cb env a st =
    (if n = 0
     then Inr (st\<lparr>servers := (servers st)(a := None), remotes := (remotes st)(b := None),
                 remote_conn := remote_conn st - 1, server_conn := server_conn st - 1,
                 trace := trace st @ [Close (remote_fd rm), Close (server_fd sv)]\<rparr>)
     else
      (case send_ret env of
         Inl e \<Rightarrow>
           if would_block e
           then Inr (st\<lparr>trace := trace st @ [Send (server_fd sv) (take (nat n) (server_buf sv))]\<rparr>)
           else Inr (st\<lparr>servers := (servers st)(a := None), remotes := (remotes st)(b := None),
                 remote_conn := remote_conn st - 1, server_conn := server_conn st - 1,
                 trace := trace st @ [Send (server_fd sv) (take (nat n) (server_buf sv)),
                    Close (remote_fd rm), Close (server_fd sv)]\<rparr>)
       | Inr s \<Rightarrow>
           if int s < n
           then Inr (st\<lparr>servers := (servers st)(a \<mapsto> sv\<lparr>server_buf :=
                      move_loop (server_buf sv) 0 s (nat n), server_buf_len := n - int s\<rparr>),
                   trace := trace st @ [Send (server_fd sv) (take (nat n) (server_buf sv))]\<rparr>)
           else Inr (st\<lparr>servers := (servers st)(a \<mapsto> sv\<lparr>server_buf_len := 0,
                      server_send_io := False\<rparr>),
                   remotes := (remotes st)(b \<mapsto> rm\<lparr>remote_recv_io := True\<rparr>),
                   trace := trace st @ [Send (server_fd sv) (take (nat n) (server_buf sv))]\<rparr>)))"
  using assms
  by (simp add: server_send_cb_def Let_def stmt_defs free_defs split: sum.splits)

lemma remote_send_drain_pair:
  assumes "servers st a = Some sv" "server_remote sv = Some b"
    "remotes st b = Some rm" "remote_server rm = Some a"
    "n = remote_buf_len rm"
  shows "remote_send_drain env b a st =
    (if n = 0
     then Inr (st\<lparr>servers := (servers st)(a := None), remotes := (remotes st)(b := None),
                 remote_conn := remote_conn st - 1, server_conn := server_conn st - 1,
                 trace := trace st @ [Close (remote_fd rm), Close (server_fd sv)]\<rparr>)
     else
      (case send_ret env of
         Inl e \<Rightarrow>
           if would_block e
           then Inr (st\<lparr>trace := trace st @ [Send (remote_fd rm) (take (nat n) (remote_buf rm))]\<rparr>)
           else Inr (st\<lparr>servers := (servers st)(a := None), remotes := (remotes st)(b := None),
                 remote_conn := remote_conn st - 1, server_conn := server_conn st - 1,
                 trace := trace st @ [Send (remote_fd rm) (take (nat n) (remote_buf rm)),
                    Close (remote_fd rm), Close (server_fd sv)]\<rparr>)
       | Inr s \<Rightarrow>
           if int s < n
           then Inr (st\<lparr>remotes := (remotes st)(b \<mapsto> rm\<lparr>remote_buf :=
                      move_loop (remote_buf rm) 0 s (nat n), remote_buf_len := n - int s\<rparr>),
                   trace := trace st @ [Send (remote_fd rm) (take (nat n) (remote_buf rm))]\<rparr>)
           else Inr (st\<lparr>servers := (servers st)(a \<mapsto> sv\<lparr>server_recv_io := True\<rparr>),
                   remotes := (remotes st)(b \<mapsto> rm\<lparr>remote_buf_len := 0,
                      remote_send_io := False\<rparr>),
                   trace := trace st @ [Send (remote_fd rm) (take (nat n) (remote_buf rm))]\<rparr>)))"
  using assms
  by (simp add: remote_send_drain_def Let_def stmt_defs free_defs split: sum.splits)

lemma remote_send_cb_pair:
  assumes "servers st a = Some sv" "server_remote sv = Some b"
    "remotes st b = Some rm" "remote_server rm = Some a"
  shows "remote_send_cb env b st =
    (if connected rm then remote_send_drain env b a st
     else if getpeername_ret env \<noteq> 0
     then Inr (st\<lparr>servers := (servers st)(a := None), remotes := (remotes st)(b := None),
                 remote_conn := remote_conn st - 1, server_conn := server_conn st - 1,
                 trace := trace st @ [Close (remote_fd rm), Close (server_fd sv)]\<rparr>)
     else if remote_buf_len rm = 0
     then Inr (st\<lparr>servers := (servers st)(a \<mapsto> sv\<lparr>stage := 5, server_recv_io := True\<rparr>),
                 remotes := (remotes st)(b \<mapsto> rm\<lparr>connected := True, watcher := False,
                    remote_recv_io := True, remote_send_io := False\<rparr>)\<rparr>)
     else remote_send_drain env b a
            (st\<lparr>remotes := (remotes st)(b \<mapsto> rm\<lparr>connected := True, watcher := False,
                    remote_recv_io := True\<rparr>),
                servers := (servers st)(a \<mapsto> sv\<lparr>stage := 5\<rparr>)\<rparr>))"
  using assms
  by (simp add: remote_send_cb_def Let_def stmt_defs free_defs)

lemma remote_timeout_cb_pair:
  assumes "servers st a = Some sv" "server_remote sv = Some b"
    "remotes st b = Some rm" "remote_server rm = Some a"
  shows "remote_timeout_cb env b st =
     Inr (st\<lparr>servers := (servers st)(a := None), remotes := (remotes st)(b := None),
                 remote_conn := remote_conn st - 1, server_conn := server_conn st - 1,
                 trace := trace st @ [Close (remote_fd rm), Close (server_fd sv)]\<rparr>)"
  using assms
  by (simp add: remote_timeout_cb_def Let_def stmt_defs free_defs)

lemma accept_cb_eq:
  "accept_cb env st =
    (if accept_ret env = - 1 then Inr st
     else Inr (st\<lparr>servers := (servers st)(malloc_ret env \<mapsto>
        \<lparr>server_fd = accept_ret env, server_buf = malloc_bytes env, stage = 0,
         server_buf_len = 0, server_recv_io = True, server_send_io = False,
         server_remote = None, timeout = listener_timeout env\<rparr>),
        server_conn := server_conn st + 1\<rparr>))"
  by (simp add: accept_cb_def new_server_def Let_def stmt_defs)

subsection \<open>End of file\<close>

text \<open>
  C10. When \<^verbatim>\<open>recv\<close> returns 0, on the client socket or on the upstream socket, the
  callback closes both sockets and frees both endpoints (for a server still in stage 0,
  which has no remote, its one socket and itself), whatever the two buffers hold: no
  condition on either \<^verbatim>\<open>buf_len\<close> is needed, and nothing is sent before the close.
\<close>

theorem eof_tears_down:
  assumes "recv_ret env = Inr []"
  shows "(servers st a = Some sv \<and> server_remote sv = Some b \<and>
          remotes st b = Some rm \<and> remote_server rm = Some a \<longrightarrow>
            (stage sv \<noteq> 0 \<longrightarrow>
              server_recv_cb env a st =
                Inr (st\<lparr>servers := (servers st)(a := None), remotes := (remotes st)(b := None),
                        remote_conn := remote_conn st - 1, server_conn := server_conn st - 1,
                        trace := trace st @ [Close (remote_fd rm), Close (server_fd sv)]\<rparr>)) \<and>
            remote_recv_cb env b st =
                Inr (st\<lparr>servers := (servers st)(a := None), remotes := (remotes st)(b := None),
                        remote_conn := remote_conn st - 1, server_conn := server_conn st - 1,
                        trace := trace st @ [Close (remote_fd rm), Close (server_fd sv)]\<rparr>))
      \<and> (servers st a = Some sv \<and> server_remote sv = None \<and> stage sv = 0 \<longrightarrow>
            server_recv_cb env a st =
                Inr (st\<lparr>servers := (servers st)(a := None), server_conn := server_conn st - 1,
                        trace := trace st @ [Close (server_fd sv)]\<rparr>))"
  using assms
  by (simp add: server_recv_cb_closed remote_recv_cb_closed server_recv_cb_closed_lone)

theorem eof_tears_down_witness:
  "server_recv_cb (ex_env\<lparr>recv_ret := Inr []\<rparr>) 0
     (session (ex_server 5 [7, 8, 9] 3 True True) (ex_remote True [] 0 False False)) =
     Inr \<lparr>servers = Map.empty, remotes = Map.empty, remote_conn = 0, server_conn = 0,
          trace = [Close 5, Close 4]\<rparr>
 \<and> remote_recv_cb (ex_env\<lparr>recv_ret := Inr []\<rparr>) 0
     (session (ex_server 5 [] 0 False False) (ex_remote True [1, 2, 3] 3 True True)) =
     Inr \<lparr>servers = Map.empty, remotes = Map.empty, remote_conn = 0, server_conn = 0,
          trace = [Close 5, Close 4]\<rparr>
 \<and> server_recv_cb (ex_env\<lparr>recv_ret := Inr []\<rparr>) 0 (lone (ex_server 0 [] 0 True False)) =
     Inr \<lparr>servers = Map.empty, remotes = Map.empty, remote_conn = 0, server_conn = 0,
          trace = [Close 4]\<rparr>"
  using eof_tears_down [of "ex_env\<lparr>recv_ret := Inr []\<rparr>"
      "session (ex_server 5 [7, 8, 9] 3 True True) (ex_remote True [] 0 False False)" 0
      "(ex_server 5 [7, 8, 9] 3 True True)\<lparr>server_remote := Some 0\<rparr>" 0
      "(ex_remote True [] 0 False False)\<lparr>remote_server := Some 0\<rparr>"]
    eof_tears_down [of "ex_env\<lparr>recv_ret := Inr []\<rparr>"
      "session (ex_server 5 [] 0 False False) (ex_remote True [1, 2, 3] 3 True True)" 0
      "(ex_server 5 [] 0 False False)\<lparr>server_remote := Some 0\<rparr>" 0
      "(ex_remote True [1, 2, 3] 3 True True)\<lparr>remote_server := Some 0\<rparr>"]
    eof_tears_down [of "ex_env\<lparr>recv_ret := Inr []\<rparr>"
      "lone (ex_server 0 [] 0 True False)" 0 "ex_server 0 [] 0 True False"]
  by (simp add: ex_defs)

subsection \<open>Partial writes\<close>

text \<open>
  C2. At each of the four \<^verbatim>\<open>send\<close> calls of stage 5, when \<^verbatim>\<open>send\<close> accepts \<open>s\<close> of
  the \<open>n\<close> pending bytes with \<open>0 \<le> s < n\<close>, the callback leaves, as the first
  \<open>n - s\<close> bytes of the buffer, the bytes \<open>s .. n - 1\<close> that the buffer held before,
  in their order, and sets \<^verbatim>\<open>buf_len\<close> to \<open>n - s\<close>. In the two write callbacks the
  pending bytes are the first \<^verbatim>\<open>buf_len\<close> bytes of the buffer; in the two read callbacks
  they are the bytes just read, after the cipher's pass.
\<close>

theorem partial_send_carry_over:
  assumes "servers st a = Some sv" and "server_remote sv = Some b"
    and "remotes st b = Some rm" and "remote_server rm = Some a"
    and "send_ret env = Inr s" and "s < n"
  shows "(server_buf_len sv = int n \<and> n \<le> length (server_buf sv) \<longrightarrow>
           (\<exists>st' sv'. server_send_cb env a st = Inr st' \<and> servers st' a = Some sv' \<and>
              server_buf_len sv' = int (n - s) \<and>
              take (n - s) (server_buf sv') = drop s (take n (server_buf sv))))
       \<and> (connected rm \<and> remote_buf_len rm = int n \<and> n \<le> length (remote_buf rm) \<longrightarrow>
           (\<exists>st' rm'. remote_send_cb env b st = Inr st' \<and> remotes st' b = Some rm' \<and>
              remote_buf_len rm' = int (n - s) \<and>
              take (n - s) (remote_buf rm') = drop s (take n (remote_buf rm))))
       \<and> (stage sv = 5 \<and> recv_ret env = Inr bytes \<and> length bytes = n \<and> n \<le> BUF_SIZE \<and>
          length (remote_buf rm) = BUF_SIZE \<longrightarrow>
           (\<exists>st' rm'. server_recv_cb env a st = Inr st' \<and> remotes st' b = Some rm' \<and>
              remote_buf_len rm' = int (n - s) \<and>
              take (n - s) (remote_buf rm') =
                drop s (take n (recv_decrypted env (remote_buf rm) bytes))))
       \<and> (recv_ret env = Inr bytes \<and> length bytes = n \<and> n \<le> BUF_SIZE \<and>
          length (server_buf sv) = BUF_SIZE \<longrightarrow>
           (\<exists>st' sv'. remote_recv_cb env b st = Inr st' \<and> servers st' a = Some sv' \<and>
              server_buf_len sv' = int (n - s) \<and>
              take (n - s) (server_buf sv') =
                drop s (take n (recv_encrypted env (server_buf sv) bytes))))"
proof (intro conjI impI)
  assume h: "server_buf_len sv = int n \<and> n \<le> length (server_buf sv)"
  with assms show "\<exists>st' sv'. server_send_cb env a st = Inr st' \<and> servers st' a = Some sv' \<and>
      server_buf_len sv' = int (n - s) \<and>
      take (n - s) (server_buf sv') = drop s (take n (server_buf sv))"
    by (simp add: server_send_cb_pair [where n = "int n"] move_loop_carry)
next
  assume h: "connected rm \<and> remote_buf_len rm = int n \<and> n \<le> length (remote_buf rm)"
  with assms show "\<exists>st' rm'. remote_send_cb env b st = Inr st' \<and> remotes st' b = Some rm' \<and>
      remote_buf_len rm' = int (n - s) \<and>
      take (n - s) (remote_buf rm') = drop s (take n (remote_buf rm))"
    by (simp add: remote_send_cb_pair remote_send_drain_pair [where n = "int n"] move_loop_carry)
next
  assume h: "stage sv = 5 \<and> recv_ret env = Inr bytes \<and> length bytes = n \<and> n \<le> BUF_SIZE \<and>
          length (remote_buf rm) = BUF_SIZE"
  then have ne: "bytes \<noteq> []" and r: "n = min (length bytes) BUF_SIZE"
    using assms(6) by auto
  have len: "n \<le> length (recv_decrypted env (remote_buf rm) bytes)"
    using h by (simp add: length_recv_decrypted)
  from h assms ne len show "\<exists>st' rm'. server_recv_cb env a st = Inr st' \<and> remotes st' b = Some rm' \<and>
      remote_buf_len rm' = int (n - s) \<and>
      take (n - s) (remote_buf rm') = drop s (take n (recv_decrypted env (remote_buf rm) bytes))"
    by (simp add: server_recv_cb_stage5 [OF _ _ _ _ _ _ ne r refl] move_loop_carry)
next
  assume h: "recv_ret env = Inr bytes \<and> length bytes = n \<and> n \<le> BUF_SIZE \<and>
          length (server_buf sv) = BUF_SIZE"
  then have ne: "bytes \<noteq> []" and r: "n = min (length bytes) BUF_SIZE"
    using assms(6) by auto
  have len: "n \<le> length (recv_encrypted env (server_buf sv) bytes)"
    using h by (simp add: length_recv_encrypted)
  from h assms ne len show "\<exists>st' sv'. remote_recv_cb env b st = Inr st' \<and> servers st' a = Some sv' \<and>
      server_buf_len sv' = int (n - s) \<and>
      take (n - s) (server_buf sv') = drop s (take n (recv_encrypted env (server_buf sv) bytes))"
    by (simp add: remote_recv_cb_data [OF _ _ _ _ _ ne r refl] move_loop_carry)
qed

lemma ex_recv_encrypted:
  "length bytes \<le> 64 \<Longrightarrow>
   recv_encrypted (ex_env\<lparr>recv_ret := x, send_ret := y\<rparr>) (replicate BUF_SIZE 0) bytes =
     bytes @ replicate (BUF_SIZE - length bytes) 0"
  by (simp add: recv_encrypted_def encrypt_ctx_def crypt_in_place_def recv_into_def ex_env_def
      BUF_SIZE_def Let_def)

lemma ex_recv_decrypted_sent:
  "length bytes \<le> 64 \<Longrightarrow>
   recv_decrypted (ex_env\<lparr>recv_ret := x, send_ret := y\<rparr>) (replicate BUF_SIZE 0) bytes =
     bytes @ replicate (BUF_SIZE - length bytes) 0"
  by (simp add: recv_decrypted_def decrypt_ctx_def crypt_in_place_def recv_into_def ex_env_def
      BUF_SIZE_def Let_def)

theorem partial_send_carry_over_witness:
  "(\<exists>st' sv'. server_send_cb (ex_env\<lparr>send_ret := Inr 1\<rparr>) 0
        (session (ex_server 5 [7, 8, 9] 3 True True) (ex_remote True [] 0 False False)) = Inr st' \<and>
      servers st' 0 = Some sv' \<and> server_buf_len sv' = 2 \<and> take 2 (server_buf sv') = [8, 9])
 \<and> (\<exists>st' rm'. remote_send_cb (ex_env\<lparr>send_ret := Inr 1\<rparr>) 0
        (session (ex_server 5 [] 0 False False) (ex_remote True [7, 8, 9] 3 True True)) = Inr st' \<and>
      remotes st' 0 = Some rm' \<and> remote_buf_len rm' = 2 \<and> take 2 (remote_buf rm') = [8, 9])
 \<and> (\<exists>st' rm'. server_recv_cb (ex_env\<lparr>recv_ret := Inr [7, 8, 9], send_ret := Inr 1\<rparr>) 0
        (session (ex_server 5 [] 0 True False) (ex_remote True [] 0 True False)) = Inr st' \<and>
      remotes st' 0 = Some rm' \<and> remote_buf_len rm' = 2 \<and> take 2 (remote_buf rm') = [8, 9])
 \<and> (\<exists>st' sv'. remote_recv_cb (ex_env\<lparr>recv_ret := Inr [7, 8, 9], send_ret := Inr 1\<rparr>) 0
        (session (ex_server 5 [] 0 True False) (ex_remote True [] 0 True False)) = Inr st' \<and>
      servers st' 0 = Some sv' \<and> server_buf_len sv' = 2 \<and> take 2 (server_buf sv') = [8, 9])"
  using partial_send_carry_over [of
      "session (ex_server 5 [7, 8, 9] 3 True True) (ex_remote True [] 0 False False)" 0
      "(ex_server 5 [7, 8, 9] 3 True True)\<lparr>server_remote := Some 0\<rparr>" 0
      "(ex_remote True [] 0 False False)\<lparr>remote_server := Some 0\<rparr>"
      "ex_env\<lparr>send_ret := Inr 1\<rparr>" 1 3]
    partial_send_carry_over [of
      "session (ex_server 5 [] 0 False False) (ex_remote True [7, 8, 9] 3 True True)" 0
      "(ex_server 5 [] 0 False False)\<lparr>server_remote := Some 0\<rparr>" 0
      "(ex_remote True [7, 8, 9] 3 True True)\<lparr>remote_server := Some 0\<rparr>"
      "ex_env\<lparr>send_ret := Inr 1\<rparr>" 1 3]
    partial_send_carry_over [of
      "session (ex_server 5 [] 0 True False) (ex_remote True [] 0 True False)" 0
      "(ex_server 5 [] 0 True False)\<lparr>server_remote := Some 0\<rparr>" 0
      "(ex_remote True [] 0 True False)\<lparr>remote_server := Some 0\<rparr>"
      "ex_env\<lparr>recv_ret := Inr [7, 8, 9], send_ret := Inr 1\<rparr>" 1 3 "[7, 8, 9]"]
  apply (simp add: session_def ex_server_def ex_remote_def ex_recv_encrypted ex_recv_decrypted_sent)
  apply (simp add: ex_env_def BUF_SIZE_def)
  done

subsection \<open>The invariant of the event loop\<close>

text \<open>
  A callback touches one server and the remote it points to; every other session of the
  heap is as before. So the invariant is kept once the touched pair is in order again.
\<close>

lemma loop_inv_serverD:
  "loop_inv st \<Longrightarrow> servers st a = Some sv \<Longrightarrow>
   (case server_remote sv of None \<Rightarrow> lone_inv sv | Some b \<Rightarrow> pair_ok st a b)"
  by (simp add: loop_inv_def)

lemma loop_inv_remoteD:
  "loop_inv st \<Longrightarrow> remotes st b = Some rm \<Longrightarrow>
   (case remote_server rm of None \<Rightarrow> False | Some a \<Rightarrow> pair_ok st a b)"
  by (simp add: loop_inv_def)

lemma pair_okD:
  "pair_ok st a b \<Longrightarrow> \<exists>sv rm. servers st a = Some sv \<and> remotes st b = Some rm \<and>
     server_remote sv = Some b \<and> remote_server rm = Some a \<and> pair_inv sv rm"
  by (auto simp: pair_ok_def split: option.splits)

lemma loop_inv_frame:
  assumes "loop_inv st"
    and fr_s: "\<And>a'. a' \<noteq> a \<Longrightarrow> servers st' a' = servers st a'"
    and fr_r: "\<And>b'. b' \<notin> B \<Longrightarrow> remotes st' b' = remotes st b'"
    and pre_s: "\<And>sv b'. servers st a = Some sv \<Longrightarrow> server_remote sv = Some b' \<Longrightarrow> b' \<in> B"
    and pre_r: "\<And>b' rm. b' \<in> B \<Longrightarrow> remotes st b' = Some rm \<Longrightarrow> remote_server rm = Some a"
    and post_s: "\<And>sv. servers st' a = Some sv \<Longrightarrow>
        (case server_remote sv of None \<Rightarrow> lone_inv sv | Some b' \<Rightarrow> b' \<in> B \<and> pair_ok st' a b')"
    and post_r: "\<And>b' rm. b' \<in> B \<Longrightarrow> remotes st' b' = Some rm \<Longrightarrow> pair_ok st' a b'"
  shows "loop_inv st'"
  unfolding loop_inv_def
proof (intro conjI allI impI)
  fix a' sv' assume s': "servers st' a' = Some sv'"
  show "case server_remote sv' of None \<Rightarrow> lone_inv sv' | Some b' \<Rightarrow> pair_ok st' a' b'"
  proof (cases "a' = a")
    case True
    with post_s [of sv'] s' show ?thesis by (simp split: option.splits)
  next
    case False
    with fr_s s' have s: "servers st a' = Some sv'" by simp
    note d = loop_inv_serverD [OF \<open>loop_inv st\<close> s]
    show ?thesis
    proof (cases "server_remote sv'")
      case None
      with d show ?thesis by simp
    next
      case (Some b')
      with d have ok: "pair_ok st a' b'" by simp
      from pair_okD [OF ok] obtain rm' where
        rm': "remotes st b' = Some rm'" "remote_server rm' = Some a'" by auto
      with pre_r [of b' rm'] False have "b' \<notin> B" by auto
      with fr_r have "remotes st' b' = remotes st b'" by simp
      with ok s s' Some show ?thesis by (simp add: pair_ok_def)
    qed
  qed
next
  fix b' rm' assume r': "remotes st' b' = Some rm'"
  show "case remote_server rm' of None \<Rightarrow> False | Some a' \<Rightarrow> pair_ok st' a' b'"
  proof (cases "b' \<in> B")
    case True
    note ok = post_r [OF True r']
    from pair_okD [OF ok] r' have "remote_server rm' = Some a" by auto
    with ok show ?thesis by simp
  next
    case False
    with fr_r r' have r: "remotes st b' = Some rm'" by simp
    from loop_inv_remoteD [OF \<open>loop_inv st\<close> r] obtain a' where
      a': "remote_server rm' = Some a'" "pair_ok st a' b'"
      by (cases "remote_server rm'") auto
    from pair_okD [OF a'(2)] obtain sv' where
      sv': "servers st a' = Some sv'" "server_remote sv' = Some b'" by auto
    with pre_s [of sv' b'] False have "a' \<noteq> a" by auto
    with fr_s have "servers st' a' = servers st a'" by simp
    with a' r r' sv' show ?thesis by (auto simp add: pair_ok_def)
  qed
qed

lemma loop_inv_pair:
  assumes "loop_inv st" "servers st a = Some sv" "server_remote sv = Some b"
  obtains rm where "remotes st b = Some rm" "remote_server rm = Some a" "pair_inv sv rm"
  using loop_inv_serverD [OF assms(1,2)] assms(2,3) by (auto dest!: pair_okD)

lemma loop_inv_lone:
  assumes "loop_inv st" "servers st a = Some sv" "server_remote sv = None"
  shows "lone_inv sv"
  using loop_inv_serverD [OF assms(1,2)] assms(3) by simp

lemma loop_inv_remote:
  assumes "loop_inv st" "remotes st b = Some rm"
  obtains a sv where "remote_server rm = Some a" "servers st a = Some sv"
    "server_remote sv = Some b" "pair_inv sv rm"
  using loop_inv_remoteD [OF assms] assms(2)
  by (cases "remote_server rm") (auto dest!: pair_okD)

lemma loop_inv_pairI:
  assumes "loop_inv st" "servers st a = Some sv" "server_remote sv = Some b"
    and "\<forall>a'. a' \<noteq> a \<longrightarrow> servers st' a' = servers st a'"
    and "\<forall>b'. b' \<noteq> b \<longrightarrow> remotes st' b' = remotes st b'"
    and "servers st' a = None \<and> remotes st' b = None \<or> pair_ok st' a b"
  shows "loop_inv st'"
proof (rule loop_inv_frame [OF assms(1), where a = a and B = "{b}"])
  fix b' rm assume "b' \<in> {b}" "remotes st b' = Some rm"
  with loop_inv_pair [OF assms(1-3)] show "remote_server rm = Some a" by auto
next
  fix sv' assume "servers st' a = Some sv'"
  with assms(6) have ok: "pair_ok st' a b" by auto
  from pair_okD [OF ok] \<open>servers st' a = Some sv'\<close> ok
  show "case server_remote sv' of None \<Rightarrow> lone_inv sv' | Some b' \<Rightarrow> b' \<in> {b} \<and> pair_ok st' a b'"
    by auto
next
  fix b' rm assume "b' \<in> {b}" "remotes st' b' = Some rm"
  with assms(6) show "pair_ok st' a b'" by auto
qed (use assms in auto)

lemma pair_inv_stage4:
  "pair_inv sv rm \<Longrightarrow> \<not> connected rm \<or> stage sv = 4 \<or> \<not> server_recv_io sv \<and> \<not> remote_recv_io rm \<and> \<not> server_send_io sv \<Longrightarrow>
     stage sv = 4 \<and> \<not> connected rm \<and> watcher rm \<and> \<not> server_recv_io sv \<and>
         \<not> server_send_io sv \<and> \<not> remote_recv_io rm \<and> remote_send_io rm \<and>
         server_buf_len sv = 0"
  by (auto simp: pair_inv_def streaming_def)

lemma pair_inv_stage5:
  "pair_inv sv rm \<Longrightarrow> connected rm \<or> stage sv = 5 \<or> server_recv_io sv \<or> server_send_io sv \<or> remote_recv_io rm \<or> \<not> remote_send_io rm \<or> \<not> watcher rm \<Longrightarrow>
     stage sv = 5 \<and> connected rm \<and> \<not> watcher rm \<and> streaming sv rm"
  by (auto simp: pair_inv_def)

lemma pair_inv_bounds:
  "pair_inv sv rm \<Longrightarrow>
     length (server_buf sv) = BUF_SIZE \<and> length (remote_buf rm) = BUF_SIZE \<and>
      0 \<le> server_buf_len sv \<and> server_buf_len sv \<le> int BUF_SIZE \<and>
      0 \<le> remote_buf_len rm \<and> remote_buf_len rm \<le> int BUF_SIZE"
  by (simp add: pair_inv_def)

lemma server_send_cb_inv:
  assumes "loop_inv st" "servers st a = Some sv" "server_send_io sv"
    "server_send_cb env a st = Inr st'"
  shows "loop_inv st'"
proof (cases "server_remote sv")
  case None
  with assms loop_inv_lone [OF assms(1,2)] show ?thesis by (simp add: lone_inv_def)
next
  case (Some b)
  from loop_inv_pair [OF assms(1,2) Some] obtain rm where
    rm: "remotes st b = Some rm" "remote_server rm = Some a" "pair_inv sv rm" .
  note eq = server_send_cb_pair [OF assms(2) Some rm(1,2) refl, of env]
  note b = pair_inv_bounds [OF rm(3)]
  from pair_inv_stage5 [OF rm(3)] assms(3)
  have s5: "stage sv = 5" "connected rm" "\<not> watcher rm" "streaming sv rm" by auto
  with assms(3) have f: "server_buf_len sv \<noteq> 0" "\<not> remote_recv_io rm"
    "server_recv_io sv \<longleftrightarrow> remote_buf_len rm = 0" "remote_send_io rm \<longleftrightarrow> remote_buf_len rm \<noteq> 0"
    by (auto simp: streaming_def)
  show ?thesis
    apply (rule loop_inv_pairI [OF assms(1,2) Some])
    using assms(2-4) Some rm(1,2) b s5(1-3) f unfolding eq
    by (auto simp: pair_ok_def pair_inv_def streaming_def split: sum.splits if_splits)
qed

lemma loop_inv_loneI:
  assumes "loop_inv st" "servers st a = Some sv" "server_remote sv = None"
    and "remotes st b = None"
    and "\<forall>a'. a' \<noteq> a \<longrightarrow> servers st' a' = servers st a'"
    and "\<forall>b'. b' \<noteq> b \<longrightarrow> remotes st' b' = remotes st b'"
    and "remotes st' b = None \<and>
           (case servers st' a of None \<Rightarrow> True
            | Some sv' \<Rightarrow> server_remote sv' = None \<and> lone_inv sv')
         \<or> pair_ok st' a b"
  shows "loop_inv st'"
proof (rule loop_inv_frame [OF assms(1), where a = a and B = "{b}"])
  fix sv' assume s': "servers st' a = Some sv'"
  show "case server_remote sv' of None \<Rightarrow> lone_inv sv' | Some b' \<Rightarrow> b' \<in> {b} \<and> pair_ok st' a b'"
  proof (cases "pair_ok st' a b")
    case True
    from pair_okD [OF True] s' True show ?thesis by auto
  next
    case False
    with assms(7) s' show ?thesis by auto
  qed
next
  fix b' rm assume "b' \<in> {b}" "remotes st' b' = Some rm"
  with assms(7) show "pair_ok st' a b'" by auto
qed (use assms in auto)

lemma loop_inv_newI:
  assumes "loop_inv st" "servers st a = None"
    and "\<forall>a'. a' \<noteq> a \<longrightarrow> servers st' a' = servers st a'"
    and "remotes st' = remotes st"
    and "case servers st' a of None \<Rightarrow> True
         | Some sv' \<Rightarrow> server_remote sv' = None \<and> lone_inv sv'"
  shows "loop_inv st'"
  by (rule loop_inv_frame [OF assms(1), where a = a and B = "{}"])
     (use assms in \<open>auto split: option.splits\<close>)

lemma BUF_SIZE_pos: "0 < BUF_SIZE"
  by (simp add: BUF_SIZE_def)

lemma length_memcpy:
  "n \<le> length dst \<Longrightarrow> n \<le> length src \<Longrightarrow> length (memcpy dst src n) = length dst"
  by (simp add: memcpy_def)

lemma server_recv_header_closed:
  assumes "servers st a = Some sv" "server_remote sv = None" "parse_header (server_buf sv) = None"
  shows "server_recv_header env a r st =
     Inr (st\<lparr>servers := (servers st)(a := None), server_conn := server_conn st - 1,
             trace := trace st @ [Close (server_fd sv)]\<rparr>)"
  using assms by (simp add: server_recv_header_def free_defs stmt_defs)

lemma server_recv_cb_inv:
  assumes "loop_inv st" "servers st a = Some sv" "server_recv_io sv"
    "remotes st (malloc_ret env) = None"
    "server_recv_cb env a st = Inr st'"
  shows "loop_inv st'"
proof (cases "server_remote sv")
  case None
  note l = loop_inv_lone [OF assms(1,2) None, unfolded lone_inv_def]
  show ?thesis
  proof (cases "recv_ret env")
    case (Inl e)
    show ?thesis
    proof (cases "would_block e")
      case True
      with server_recv_cb_wait [OF assms(2) _ Inl] l assms(1,5) show ?thesis by simp
    next
      case False
      with server_recv_cb_closed_lone [OF assms(2) _ None, of env] Inl l assms(5)
      have "st' = st\<lparr>servers := (servers st)(a := None), server_conn := server_conn st - 1,
             trace := trace st @ [Close (server_fd sv)]\<rparr>" by simp
      then show ?thesis
        by (intro loop_inv_loneI [OF assms(1,2) None assms(4)]) (simp_all add: assms(4))
    qed
  next
    case (Inr bytes)
    show ?thesis
    proof (cases "bytes = []")
      case True
      with server_recv_cb_closed_lone [OF assms(2) _ None, of env] Inr l assms(5)
      have "st' = st\<lparr>servers := (servers st)(a := None), server_conn := server_conn st - 1,
             trace := trace st @ [Close (server_fd sv)]\<rparr>" by simp
      then show ?thesis
        by (intro loop_inv_loneI [OF assms(1,2) None assms(4)]) (simp_all add: assms(4))
    next
      case False
      define dbuf where "dbuf = recv_decrypted env (server_buf sv) bytes"
      define r where "r = min (length bytes) BUF_SIZE"
      let ?st = "st\<lparr>servers := (servers st)(a \<mapsto> sv\<lparr>server_buf := dbuf\<rparr>)\<rparr>"
      have cb: "server_recv_cb env a st = server_recv_header env a r ?st"
        using server_recv_cb_stage0 [OF assms(2) _ Inr False] l by (simp add: dbuf_def r_def)
      have sv: "servers ?st a = Some (sv\<lparr>server_buf := dbuf\<rparr>)" by simp
      have len: "length dbuf = BUF_SIZE" "r \<le> BUF_SIZE"
        using l by (simp_all add: dbuf_def r_def length_recv_decrypted)
      show ?thesis
      proof (cases "parse_header dbuf")
        case None': None
        from server_recv_header_closed [OF sv, of env r] None None' assms(5)
        have "st' = st\<lparr>servers := (servers st)(a := None), server_conn := server_conn st - 1,
             trace := trace st @ [Close (server_fd sv)]\<rparr>"
          unfolding cb by simp
        then show ?thesis
          by (intro loop_inv_loneI [OF assms(1,2) None assms(4)]) (simp_all add: assms(4))
      next
        case (Some hpo)
        then obtain host port offset where hpo: "parse_header dbuf = Some (host, port, offset)"
          by (cases hpo) auto
        show ?thesis
        proof (cases "getaddrinfo_ret env \<noteq> 0 \<or> socket_ret env < 0")
          case True
          from server_recv_header_connect_failed [OF sv _ _ True, of host port offset r] None hpo
            assms(5)
          have "servers st' = (servers st)(a := None)" "remotes st' = remotes st"
            unfolding cb by auto
          then show ?thesis
            by (intro loop_inv_loneI [OF assms(1,2) None assms(4)]) (simp_all add: assms(4))
        next
          case False
          from server_recv_header_connected [OF sv, of host port offset env r] hpo False assms(5)
          have st': "st' = st\<lparr>servers := (servers st)(a \<mapsto> sv\<lparr>server_buf := dbuf, stage := 4,
                  server_recv_io := False, server_remote := Some (malloc_ret env)\<rparr>),
             remotes := (remotes st)(malloc_ret env \<mapsto>
               \<lparr>remote_fd = socket_ret env,
                remote_buf = (if offset < r
                   then memcpy (malloc_bytes env) (drop offset dbuf) (r - offset)
                   else malloc_bytes env),
                remote_buf_len = (if offset < r then int r - int offset else 0),
                remote_recv_io = False, remote_send_io = True, watcher = True,
                connected = False, remote_server = Some a\<rparr>),
             remote_conn := remote_conn st + 1,
             trace := trace st @ [Getaddrinfo host port, Connect (socket_ret env)]\<rparr>"
            unfolding cb by simp
          show ?thesis
            apply (intro loop_inv_loneI [OF assms(1,2) None assms(4)])
            using len l
            by (auto simp add: st' pair_ok_def pair_inv_def length_malloc_bytes length_memcpy)
        qed
      qed
    qed
  qed
next
  case (Some b)
  from loop_inv_pair [OF assms(1,2) Some] obtain rm where
    rm: "remotes st b = Some rm" "remote_server rm = Some a" "pair_inv sv rm" .
  note b = pair_inv_bounds [OF rm(3)]
  from pair_inv_stage5 [OF rm(3)] assms(3)
  have s5: "stage sv = 5" "connected rm" "\<not> watcher rm" "streaming sv rm" by auto
  with assms(3) have f: "remote_buf_len rm = 0" "\<not> remote_send_io rm"
    "remote_recv_io rm \<longleftrightarrow> server_buf_len sv = 0" "server_send_io sv \<longleftrightarrow> server_buf_len sv \<noteq> 0"
    by (auto simp: streaming_def)
  show ?thesis
  proof (cases "recv_ret env = Inr [] \<or> (\<exists>e. recv_ret env = Inl e \<and> \<not> would_block e)")
    case True
    from server_recv_cb_closed [OF assms(2) _ Some rm(1,2) True] s5(1) assms(5)
    have "servers st' = (servers st)(a := None)" "remotes st' = (remotes st)(b := None)"
      by auto
    then show ?thesis
      by (intro loop_inv_pairI [OF assms(1,2) Some]) simp_all
  next
    case False
    show ?thesis
    proof (cases "recv_ret env")
      case (Inl e)
      with False have "would_block e" by simp
      with server_recv_cb_wait [OF assms(2) _ Inl] Some rm(1) assms(1,5) show ?thesis by simp
    next
      case (Inr bytes)
      with False have ne: "bytes \<noteq> []" by simp
      note eq = server_recv_cb_stage5 [OF assms(2) s5(1) Some rm(1,2) Inr ne refl refl]
      have len: "length (recv_decrypted env (remote_buf rm) bytes) = BUF_SIZE"
        using b by (simp add: length_recv_decrypted)
      show ?thesis
        apply (rule loop_inv_pairI [OF assms(1,2) Some])
        using assms(2,3,5) Some rm(1,2) b s5(1-3) f len ne BUF_SIZE_pos unfolding eq
        by (auto simp: pair_ok_def pair_inv_def streaming_def split: sum.splits if_splits)
    qed
  qed
qed

lemma remote_recv_cb_inv:
  assumes "loop_inv st" "remotes st b = Some rm" "remote_recv_io rm"
    "remote_recv_cb env b st = Inr st'"
  shows "loop_inv st'"
proof -
  from loop_inv_remote [OF assms(1,2)] obtain a sv where
    sv: "remote_server rm = Some a" "servers st a = Some sv" "server_remote sv = Some b"
      "pair_inv sv rm" .
  note b = pair_inv_bounds [OF sv(4)]
  from pair_inv_stage5 [OF sv(4)] assms(3)
  have s5: "stage sv = 5" "connected rm" "\<not> watcher rm" "streaming sv rm" by auto
  with assms(3) have f: "server_buf_len sv = 0" "\<not> server_send_io sv"
    "server_recv_io sv \<longleftrightarrow> remote_buf_len rm = 0" "remote_send_io rm \<longleftrightarrow> remote_buf_len rm \<noteq> 0"
    by (auto simp: streaming_def)
  show ?thesis
  proof (cases "recv_ret env = Inr [] \<or> (\<exists>e. recv_ret env = Inl e \<and> \<not> would_block e)")
    case True
    from remote_recv_cb_closed [OF sv(2,3) assms(2) sv(1) True] assms(4)
    have "servers st' = (servers st)(a := None)" "remotes st' = (remotes st)(b := None)"
      by auto
    then show ?thesis
      by (intro loop_inv_pairI [OF assms(1) sv(2,3)]) simp_all
  next
    case False
    show ?thesis
    proof (cases "recv_ret env")
      case (Inl e)
      with False have "would_block e" by simp
      with remote_recv_cb_wait [OF assms(2) sv(1,2) Inl] assms(1,4) show ?thesis by simp
    next
      case (Inr bytes)
      with False have ne: "bytes \<noteq> []" by simp
      note eq = remote_recv_cb_data [OF sv(2,3) assms(2) sv(1) Inr ne refl refl]
      have len: "length (recv_encrypted env (server_buf sv) bytes) = BUF_SIZE"
        using b by (simp add: length_recv_encrypted)
      show ?thesis
        apply (rule loop_inv_pairI [OF assms(1) sv(2,3)])
        using assms(2-4) sv(1-3) b s5(1-3) f len ne BUF_SIZE_pos unfolding eq
        by (auto simp: pair_ok_def pair_inv_def streaming_def split: sum.splits if_splits)
    qed
  qed
qed

lemma remote_send_cb_inv:
  assumes "loop_inv st" "remotes st b = Some rm" "remote_send_io rm"
    "remote_send_cb env b st = Inr st'"
  shows "loop_inv st'"
proof -
  from loop_inv_remote [OF assms(1,2)] obtain a sv where
    sv: "remote_server rm = Some a" "servers st a = Some sv" "server_remote sv = Some b"
      "pair_inv sv rm" .
  note b = pair_inv_bounds [OF sv(4)]
  note eq = remote_send_cb_pair [OF sv(2,3) assms(2) sv(1), of env]
  show ?thesis
  proof (cases "connected rm")
    case True
    from pair_inv_stage5 [OF sv(4)] True
    have s5: "stage sv = 5" "\<not> watcher rm" "streaming sv rm" by auto
    with assms(3) have f: "remote_buf_len rm \<noteq> 0" "\<not> server_recv_io sv"
      "remote_recv_io rm \<longleftrightarrow> server_buf_len sv = 0" "server_send_io sv \<longleftrightarrow> server_buf_len sv \<noteq> 0"
      by (auto simp: streaming_def)
    note eq2 = remote_send_drain_pair [OF sv(2,3) assms(2) sv(1) refl, of env]
    show ?thesis
      apply (rule loop_inv_pairI [OF assms(1) sv(2,3)])
      using assms(2-4) sv(1-3) b s5(1,2) f True unfolding eq eq2
      by (auto simp: pair_ok_def pair_inv_def streaming_def split: sum.splits if_splits)
  next
    case False
    from pair_inv_stage4 [OF sv(4)] False
    have s4: "stage sv = 4" "watcher rm" "\<not> server_recv_io sv" "\<not> server_send_io sv"
      "\<not> remote_recv_io rm" "server_buf_len sv = 0" by auto
    let ?st = "st\<lparr>remotes := (remotes st)(b \<mapsto> rm\<lparr>connected := True, watcher := False,
                    remote_recv_io := True\<rparr>),
                servers := (servers st)(a \<mapsto> sv\<lparr>stage := 5\<rparr>)\<rparr>"
    have p: "servers ?st a = Some (sv\<lparr>stage := 5\<rparr>)"
      "server_remote (sv\<lparr>stage := 5\<rparr>) = Some b"
      "remotes ?st b = Some (rm\<lparr>connected := True, watcher := False, remote_recv_io := True\<rparr>)"
      "remote_server (rm\<lparr>connected := True, watcher := False, remote_recv_io := True\<rparr>) = Some a"
      "remote_buf_len rm =
         remote_buf_len (rm\<lparr>connected := True, watcher := False, remote_recv_io := True\<rparr>)"
      using sv by simp_all
    note eq2 = remote_send_drain_pair [OF p, of env]
    show ?thesis
      apply (rule loop_inv_pairI [OF assms(1) sv(2,3)])
      using assms(2-4) sv(1-3) b s4 False unfolding eq eq2
      by (auto simp: pair_ok_def pair_inv_def streaming_def split: sum.splits if_splits)
  qed
qed

lemma remote_timeout_cb_inv:
  assumes "loop_inv st" "remotes st b = Some rm"
    "remote_timeout_cb env b st = Inr st'"
  shows "loop_inv st'"
proof -
  from loop_inv_remote [OF assms(1,2)] obtain a sv where
    sv: "remote_server rm = Some a" "servers st a = Some sv" "server_remote sv = Some b"
      "pair_inv sv rm" .
  from remote_timeout_cb_pair [OF sv(2,3) assms(2) sv(1), of env] assms(3)
  have "servers st' = (servers st)(a := None)" "remotes st' = (remotes st)(b := None)"
    by auto
  then show ?thesis
    by (intro loop_inv_pairI [OF assms(1) sv(2,3)]) simp_all
qed

lemma accept_cb_inv:
  assumes "loop_inv st" "servers st (malloc_ret env) = None" "accept_cb env st = Inr st'"
  shows "loop_inv st'"
proof (cases "accept_ret env = - 1")
  case True
  with assms show ?thesis by (simp add: accept_cb_eq)
next
  case False
  with assms(3) have "st' = st\<lparr>servers := (servers st)(malloc_ret env \<mapsto>
        \<lparr>server_fd = accept_ret env, server_buf = malloc_bytes env, stage = 0,
         server_buf_len = 0, server_recv_io = True, server_send_io = False,
         server_remote = None, timeout = listener_timeout env\<rparr>),
        server_conn := server_conn st + 1\<rparr>"
    by (simp add: accept_cb_eq)
  then show ?thesis
    by (intro loop_inv_newI [OF assms(1,2)])
       (simp_all add: lone_inv_def length_malloc_bytes)
qed

lemma loop_inv_init: "loop_inv init"
  by (simp add: loop_inv_def init_def)

lemma dispatch_loop_inv: "dispatch st st' \<Longrightarrow> loop_inv st \<Longrightarrow> loop_inv st'"
proof (induction rule: dispatch.induct)
  case (accept env st st')
  then show ?case by (auto intro: accept_cb_inv)
next
  case (server_recv st a sv env st')
  then show ?case by (auto intro: server_recv_cb_inv)
next
  case (server_send st a sv env st')
  then show ?case by (auto intro: server_send_cb_inv)
next
  case (remote_recv st b rm env st')
  then show ?case by (auto intro: remote_recv_cb_inv)
next
  case (remote_send st b rm env st')
  then show ?case by (auto intro: remote_send_cb_inv)
next
  case (remote_timeout st b rm env st')
  then show ?case by (auto intro: remote_timeout_cb_inv)
qed

lemma reachable_loop_inv: "reachable st \<Longrightarrow> loop_inv st"
  by (induction rule: reachable.induct) (auto intro: loop_inv_init dispatch_loop_inv)

subsection \<open>States the loop reaches\<close>

lemma reachable_ex_accepted: "reachable (lone (ex_server 0 [] 0 True False))"
proof -
  have "accept_cb ex_env init = Inr (lone (ex_server 0 [] 0 True False))"
    by (simp add: accept_cb_eq init_def ex_defs malloc_bytes_def)
  from dispatch.accept [OF _ this] have "dispatch init (lone (ex_server 0 [] 0 True False))"
    by (simp add: init_def)
  with reachable.start show ?thesis by (rule reachable.turn)
qed

lemma reachable_ex_awaiting: "reachable ex_awaiting"
proof -
  let ?env = "ex_env\<lparr>recv_ret := Inr [1, 127, 0, 0, 1, 0, 80]\<rparr>"
  let ?sv = "ex_server 0 [] 0 True False"
  have "server_recv_cb ?env 0 (lone ?sv) = Inr ex_awaiting"
    apply (simp add: server_recv_cb_stage0 lone_def ex_server_def)
    apply (simp add: server_recv_header_def connect_to_remote_def new_remote_def stmt_defs
        recv_decrypted_def decrypt_ctx_def crypt_in_place_def recv_into_def ex_env_def Let_def
        parse_header_def decimal.simps digit_def BUF_SIZE_def malloc_bytes_def ex_awaiting_def
        session_def ex_remote_def ex_server_def)
    done
  from dispatch.server_recv [OF _ _ _ this, of ?sv] have "dispatch (lone ?sv) ex_awaiting"
    by (simp add: lone_def ex_server_def ex_env_def)
  with reachable_ex_accepted show ?thesis by (rule reachable.turn)
qed

lemma reachable_ex_streaming: "reachable ex_streaming"
proof -
  have "remote_send_cb ex_env 0 ex_awaiting = Inr ex_streaming"
    by (simp add: remote_send_cb_def ex_awaiting_def ex_streaming_def ex_defs stmt_defs)
  from dispatch.remote_send [OF _ _ this, of "(ex_remote False [] 0 False True)\<lparr>remote_server := Some 0\<rparr>"]
  have "dispatch ex_awaiting ex_streaming"
    by (simp add: ex_awaiting_def ex_defs)
  with reachable_ex_awaiting show ?thesis by (rule reachable.turn)
qed

text \<open>
  C1. In every state the event loop can reach, that is after every callback, a server in
  stage 5 has a remote, and for each direction the source's read watcher is started iff
  the direction's \<^verbatim>\<open>buf_len\<close> is 0 and the destination's write watcher is started iff it
  is not 0; so exactly one of the two is started.
\<close>

theorem streaming_interest:
  assumes "reachable st" and "servers st a = Some sv" and "stage sv = 5"
  shows "\<exists>b rm. server_remote sv = Some b \<and> remotes st b = Some rm \<and> remote_server rm = Some a \<and>
     (server_recv_io sv \<longleftrightarrow> remote_buf_len rm = 0) \<and>
     (remote_send_io rm \<longleftrightarrow> remote_buf_len rm \<noteq> 0) \<and>
     (remote_recv_io rm \<longleftrightarrow> server_buf_len sv = 0) \<and>
     (server_send_io sv \<longleftrightarrow> server_buf_len sv \<noteq> 0) \<and>
     (server_recv_io sv \<longleftrightarrow> \<not> remote_send_io rm) \<and>
     (remote_recv_io rm \<longleftrightarrow> \<not> server_send_io sv)"
proof (cases "server_remote sv")
  case None
  from loop_inv_lone [OF reachable_loop_inv [OF assms(1)] assms(2) None] assms(3)
  show ?thesis by (simp add: lone_inv_def)
next
  case (Some b)
  from loop_inv_pair [OF reachable_loop_inv [OF assms(1)] assms(2) Some] obtain rm where
    rm: "remotes st b = Some rm" "remote_server rm = Some a" "pair_inv sv rm" .
  from pair_inv_stage5 [OF rm(3)] assms(3) have "streaming sv rm" by simp
  with Some rm show ?thesis by (auto simp: streaming_def)
qed

theorem streaming_interest_witness:
  "\<exists>sv rm. servers ex_streaming 0 = Some sv \<and> stage sv = 5 \<and> remotes ex_streaming 0 = Some rm \<and>
     remote_buf_len rm = 0 \<and> server_recv_io sv \<and> \<not> remote_send_io rm \<and>
     server_buf_len sv = 0 \<and> remote_recv_io rm \<and> \<not> server_send_io sv"
  using streaming_interest [OF reachable_ex_streaming, of 0
      "(ex_server 5 [1, 127, 0, 0, 1, 0, 80] 0 True False)\<lparr>server_remote := Some 0\<rparr>"]
  by (simp add: ex_streaming_def ex_defs)

text \<open>
  C8. In every state the event loop can reach, a server whose read watcher is started is
  in stage 0 or in stage 5 (in stage 4 the watcher is stopped), so \<^verbatim>\<open>server_recv_cb\<close>,
  which the loop calls only for a started watcher, does not reach its last line
  \<^verbatim>\<open>FATAL("server context error.")\<close>: whatever the kernel answers, it returns a state.
\<close>

theorem server_recv_never_fatal:
  assumes "reachable st" and "servers st a = Some sv" and "server_recv_io sv"
  shows "(stage sv = 0 \<or> stage sv = 5) \<and>
         server_recv_cb env a st \<noteq> Inl (FATAL ''server context error.'') \<and>
         (\<exists>st'. server_recv_cb env a st = Inr st')"
proof -
  note inv = reachable_loop_inv [OF assms(1)]
  have "(stage sv = 0 \<or> stage sv = 5) \<and> (\<exists>st'. server_recv_cb env a st = Inr st')"
  proof (cases "server_remote sv")
    case None
    note l = loop_inv_lone [OF inv assms(2) None, unfolded lone_inv_def]
    have "\<exists>st'. server_recv_cb env a st = Inr st'"
    proof (cases "recv_ret env")
      case (Inl e)
      with server_recv_cb_wait [OF assms(2) _ Inl]
        server_recv_cb_closed_lone [OF assms(2) _ None, of env] l
      show ?thesis by (cases "would_block e") auto
    next
      case (Inr bytes)
      show ?thesis
      proof (cases "bytes = []")
        case True
        with server_recv_cb_closed_lone [OF assms(2) _ None, of env] l Inr
        show ?thesis by auto
      next
        case False
        let ?dbuf = "recv_decrypted env (server_buf sv) bytes"
        let ?st = "st\<lparr>servers := (servers st)(a \<mapsto> sv\<lparr>server_buf := ?dbuf\<rparr>)\<rparr>"
        have cb: "server_recv_cb env a st =
            server_recv_header env a (min (length bytes) BUF_SIZE) ?st"
          using server_recv_cb_stage0 [OF assms(2) _ Inr False] l by simp
        have sv: "servers ?st a = Some (sv\<lparr>server_buf := ?dbuf\<rparr>)" by simp
        show ?thesis
        proof (cases "parse_header ?dbuf")
          case None': None
          from server_recv_header_closed [OF sv, of env] None None'
          show ?thesis unfolding cb by simp
        next
          case (Some hpo)
          then obtain host port offset where
            hpo: "parse_header ?dbuf = Some (host, port, offset)"
            by (cases hpo) auto
          show ?thesis
          proof (cases "getaddrinfo_ret env \<noteq> 0 \<or> socket_ret env < 0")
            case True
            from server_recv_header_connect_failed [OF sv _ _ True, of host port offset] None hpo
            show ?thesis unfolding cb by simp
          next
            case False
            from server_recv_header_connected [OF sv, of host port offset env] hpo False
            show ?thesis unfolding cb by simp
          qed
        qed
      qed
    qed
    with l show ?thesis by simp
  next
    case (Some b)
    from loop_inv_pair [OF inv assms(2) Some] obtain rm where
      rm: "remotes st b = Some rm" "remote_server rm = Some a" "pair_inv sv rm" .
    from pair_inv_stage5 [OF rm(3)] assms(3) have s5: "stage sv = 5" by simp
    have "\<exists>st'. server_recv_cb env a st = Inr st'"
    proof (cases "recv_ret env = Inr [] \<or> (\<exists>e. recv_ret env = Inl e \<and> \<not> would_block e)")
      case True
      from server_recv_cb_closed [OF assms(2) _ Some rm(1,2) True] s5 show ?thesis by simp
    next
      case False
      show ?thesis
      proof (cases "recv_ret env")
        case (Inl e)
        with False server_recv_cb_wait [OF assms(2) _ Inl] Some rm(1) show ?thesis by simp
      next
        case (Inr bytes)
        with False have ne: "bytes \<noteq> []" by simp
        show ?thesis
          unfolding server_recv_cb_stage5 [OF assms(2) s5 Some rm(1,2) Inr ne refl refl]
          by (simp split: sum.splits)
      qed
    qed
    with s5 show ?thesis by simp
  qed
  then show ?thesis by auto
qed

theorem server_recv_never_fatal_witness:
  "\<exists>st'. server_recv_cb (ex_env\<lparr>recv_ret := Inr [71, 69, 84], send_ret := Inr 3\<rparr>) 0 ex_streaming = Inr st'"
  using server_recv_never_fatal [OF reachable_ex_streaming, of 0
      "(ex_server 5 [1, 127, 0, 0, 1, 0, 80] 0 True False)\<lparr>server_remote := Some 0\<rparr>"
      "ex_env\<lparr>recv_ret := Inr [71, 69, 84], send_ret := Inr 3\<rparr>"]
  by (simp add: ex_streaming_def ex_defs)

subsection \<open>The connect is confirmed\<close>

lemma loop_inv_session: "pair_inv sv rm \<Longrightarrow> loop_inv (session sv rm)"
  by (simp add: loop_inv_def session_def pair_ok_def pair_inv_def streaming_def)

text \<open>
  C3. For a server in stage 4 and its remote, between two callbacks: the remote's write
  callback takes the connect as made iff \<^verbatim>\<open>getpeername\<close> returns 0. Then it sets
  \<^verbatim>\<open>connected\<close>, stops the timer, starts the remote's read watcher and sets stage 5; with
  an empty client-to-upstream buffer it also stops the remote's write watcher and starts
  the server's read watcher, and returns. With carry-over bytes in that buffer it leaves
  the remote's write watcher started and goes on, in the same call, to the send of
  exactly these bytes (the second half of the callback, \<open>remote_send_drain\<close>), which is
  its next request. When \<^verbatim>\<open>getpeername\<close> fails it closes both sockets and frees both
  endpoints.
\<close>

theorem connect_confirmed:
  assumes "loop_inv st" and "servers st a = Some sv" and "stage sv = 4"
    and "server_remote sv = Some b" and "remotes st b = Some rm"
  shows "(getpeername_ret env = 0 \<and> remote_buf_len rm = 0 \<longrightarrow>
            remote_send_cb env b st =
              Inr (st\<lparr>servers := (servers st)(a \<mapsto> sv\<lparr>stage := 5, server_recv_io := True\<rparr>),
                      remotes := (remotes st)(b \<mapsto> rm\<lparr>connected := True, watcher := False,
                         remote_recv_io := True, remote_send_io := False\<rparr>)\<rparr>))
       \<and> (getpeername_ret env = 0 \<and> remote_buf_len rm \<noteq> 0 \<longrightarrow>
            remote_send_io rm \<and>
            remote_send_cb env b st =
              remote_send_drain env b a
                (st\<lparr>servers := (servers st)(a \<mapsto> sv\<lparr>stage := 5\<rparr>),
                    remotes := (remotes st)(b \<mapsto> rm\<lparr>connected := True, watcher := False,
                       remote_recv_io := True\<rparr>)\<rparr>) \<and>
            (\<exists>st'. remote_send_cb env b st = Inr st' \<and>
               take (Suc (length (trace st))) (trace st') =
                 trace st @ [Send (remote_fd rm) (take (nat (remote_buf_len rm)) (remote_buf rm))]))
       \<and> (getpeername_ret env \<noteq> 0 \<longrightarrow>
            remote_send_cb env b st =
              Inr (st\<lparr>servers := (servers st)(a := None), remotes := (remotes st)(b := None),
                      remote_conn := remote_conn st - 1, server_conn := server_conn st - 1,
                      trace := trace st @ [Close (remote_fd rm), Close (server_fd sv)]\<rparr>))"
proof -
  from loop_inv_pair [OF assms(1,2,4)] assms(5)
  have rm: "remote_server rm = Some a" "pair_inv sv rm" by auto
  from pair_inv_stage4 [OF rm(2)] assms(3)
  have s4: "\<not> connected rm" "remote_send_io rm" by auto
  note eq = remote_send_cb_pair [OF assms(2,4,5) rm(1), of env]
  let ?st = "st\<lparr>remotes := (remotes st)(b \<mapsto> rm\<lparr>connected := True, watcher := False,
                    remote_recv_io := True\<rparr>),
                servers := (servers st)(a \<mapsto> sv\<lparr>stage := 5\<rparr>)\<rparr>"
  have sw: "st\<lparr>servers := (servers st)(a \<mapsto> sv\<lparr>stage := 5\<rparr>),
                    remotes := (remotes st)(b \<mapsto> rm\<lparr>connected := True, watcher := False,
                       remote_recv_io := True\<rparr>)\<rparr> = ?st"
    by simp
  have p: "servers ?st a = Some (sv\<lparr>stage := 5\<rparr>)"
    "server_remote (sv\<lparr>stage := 5\<rparr>) = Some b"
    "remotes ?st b = Some (rm\<lparr>connected := True, watcher := False, remote_recv_io := True\<rparr>)"
    "remote_server (rm\<lparr>connected := True, watcher := False, remote_recv_io := True\<rparr>) = Some a"
    "remote_buf_len rm =
       remote_buf_len (rm\<lparr>connected := True, watcher := False, remote_recv_io := True\<rparr>)"
    using assms(4) rm(1) by simp_all
  note eq2 = remote_send_drain_pair [OF p, of env]
  have flush: "\<exists>st'. remote_send_drain env b a ?st = Inr st' \<and>
       take (Suc (length (trace st))) (trace st') =
         trace st @ [Send (remote_fd rm) (take (nat (remote_buf_len rm)) (remote_buf rm))]"
    if "remote_buf_len rm \<noteq> 0"
    unfolding eq2 using that by (simp split: sum.splits)
  show ?thesis
    unfolding sw using s4 flush by (simp add: eq)
qed

theorem connect_confirmed_witness:
  "remote_send_cb ex_env 0 ex_awaiting = Inr ex_streaming
 \<and> remote_send_cb (ex_env\<lparr>getpeername_ret := - 1\<rparr>) 0 ex_awaiting =
     Inr \<lparr>servers = Map.empty, remotes = Map.empty, remote_conn = 0, server_conn = 0,
          trace = [Getaddrinfo ''127.0.0.1'' ''80'', Connect 5, Close 5, Close 4]\<rparr>
 \<and> (\<exists>st'. remote_send_cb (ex_env\<lparr>send_ret := Inr 3\<rparr>) 0
        (session (ex_server 4 [] 0 False False) (ex_remote False [71, 69, 84] 3 False True)) = Inr st' \<and>
      take 1 (trace st') = [Send 5 [71, 69, 84]])"
proof -
  let ?sv = "(ex_server 4 [1, 127, 0, 0, 1, 0, 80] 0 False False)\<lparr>server_remote := Some 0\<rparr>"
  let ?rm = "(ex_remote False [] 0 False True)\<lparr>remote_server := Some 0\<rparr>"
  have a: "servers ex_awaiting 0 = Some ?sv" "stage ?sv = 4" "server_remote ?sv = Some 0"
    "remotes ex_awaiting 0 = Some ?rm"
    by (simp_all add: ex_awaiting_def ex_defs)
  note inv = reachable_loop_inv [OF reachable_ex_awaiting]
  from connect_confirmed [OF inv a, of ex_env]
  have 1: "remote_send_cb ex_env 0 ex_awaiting = Inr ex_streaming"
    by (simp add: ex_awaiting_def ex_streaming_def ex_defs)
  from connect_confirmed [OF inv a, of "ex_env\<lparr>getpeername_ret := - 1\<rparr>"]
  have 2: "remote_send_cb (ex_env\<lparr>getpeername_ret := - 1\<rparr>) 0 ex_awaiting =
     Inr \<lparr>servers = Map.empty, remotes = Map.empty, remote_conn = 0, server_conn = 0,
          trace = [Getaddrinfo ''127.0.0.1'' ''80'', Connect 5, Close 5, Close 4]\<rparr>"
    by (simp add: ex_awaiting_def ex_defs)
  let ?st = "session (ex_server 4 [] 0 False False) (ex_remote False [71, 69, 84] 3 False True)"
  let ?sv3 = "(ex_server 4 [] 0 False False)\<lparr>server_remote := Some 0\<rparr>"
  let ?rm3 = "(ex_remote False [71, 69, 84] 3 False True)\<lparr>remote_server := Some 0\<rparr>"
  have inv3: "loop_inv ?st"
    by (rule loop_inv_session) (simp add: pair_inv_def ex_defs BUF_SIZE_def)
  have a3: "servers ?st 0 = Some ?sv3" "stage ?sv3 = 4" "server_remote ?sv3 = Some 0"
    "remotes ?st 0 = Some ?rm3"
    by (simp_all add: ex_defs)
  have b3: "getpeername_ret (ex_env\<lparr>send_ret := Inr 3\<rparr>) = 0 \<and> remote_buf_len ?rm3 \<noteq> 0"
    by (simp add: ex_defs)
  from connect_confirmed [OF inv3 a3, of "ex_env\<lparr>send_ret := Inr 3\<rparr>",
      THEN conjunct2, THEN conjunct1, rule_format, OF b3, THEN conjunct2, THEN conjunct2]
  have 3: "\<exists>st'. remote_send_cb (ex_env\<lparr>send_ret := Inr 3\<rparr>) 0 ?st = Inr st' \<and>
      take 1 (trace st') = [Send 5 [71, 69, 84]]"
    by (simp add: ex_defs)
  from 1 2 3 show ?thesis by (intro conjI)
qed

end
